theory Spec2Isabelle
  imports Main "HOL-Library.Sublist" "HOL-Library.AList"
begin

section \<open>JavaScript values\<close>

text \<open>
  The plugin (\<^verbatim>\<open>src/src/index.ts\<close>) runs inside Node. Its strings are modelled as
  \<^typ>\<open>string\<close>; every character its regular expressions name is ASCII. A thrown
  exception is a value of the datatype \<open>error\<close>, returned on the left of a sum.
\<close>

datatype error =
    ReferenceError string
  | TypeError string
  | SyntaxError string
  | SystemError string

text \<open>
  A JavaScript number, given by the two things the plugin observes of one: whether it is
  truthy (neither zero nor NaN), and the text that a template literal prints for it
  (\<^verbatim>\<open>5173\<close>, \<^verbatim>\<open>0.5\<close>, \<^verbatim>\<open>1e+21\<close>). The plugin does no arithmetic.
\<close>

datatype number = Number bool string

fun number_truthy :: "number \<Rightarrow> bool" where
  "number_truthy (Number t s) = t"

fun number_text :: "number \<Rightarrow> string" where
  "number_text (Number t s) = s"

text \<open>What \<^verbatim>\<open>JSON.parse\<close> returns. An object is the list of its own properties.\<close>

datatype json =
    JNull
  | JBool bool
  | JNum number
  | JStr string
  | JArr "json list"
  | JObj "(string \<times> json) list"

definition dq :: char where
  "dq = CHR 0x22"

definition sq :: char where
  "sq = CHR 0x27"

definition nl :: char where
  "nl = CHR 0x0A"

text \<open>Truthiness, as \<^verbatim>\<open>||\<close>, \<^verbatim>\<open>&&\<close> and \<^verbatim>\<open>?:\<close> test it.\<close>

fun truthy :: "json \<Rightarrow> bool" where
  "truthy JNull = False"
| "truthy (JBool b) = b"
| "truthy (JNum n) = number_truthy n"
| "truthy (JStr s) = (s \<noteq> [])"
| "truthy (JArr xs) = True"
| "truthy (JObj kvs) = True"

fun join_comma :: "string list \<Rightarrow> string" where
  "join_comma [] = []"
| "join_comma [s] = s"
| "join_comma (s # t # ss) = s @ '','' @ join_comma (t # ss)"

text \<open>
  \<^verbatim>\<open>ToString\<close>, as a template literal \<^verbatim>\<open>`${v}`\<close> applies it. An array is joined with
  commas, \<^verbatim>\<open>null\<close> elements printing as nothing. An object parsed from JSON prints as
  \<^verbatim>\<open>[object Object]\<close> through \<^verbatim>\<open>Object.prototype.toString\<close>, unless it has an own
  property \<^verbatim>\<open>toString\<close>: that is never callable, \<^verbatim>\<open>valueOf\<close> gives no primitive, and
  the conversion throws a TypeError.
\<close>

fun to_string :: "json \<Rightarrow> error + string"
  and to_strings :: "json list \<Rightarrow> error + string list" where
  "to_string JNull = Inr ''null''"
| "to_string (JBool b) = Inr (if b then ''true'' else ''false'')"
| "to_string (JNum n) = Inr (number_text n)"
| "to_string (JStr s) = Inr s"
| "to_string (JArr xs) =
     (case to_strings xs of
        Inl e \<Rightarrow> Inl e
      | Inr ss \<Rightarrow> Inr (join_comma ss))"
| "to_string (JObj kvs) =
     (if map_of kvs ''toString'' = None then Inr ''[object Object]''
      else Inl (TypeError ''Cannot convert object to primitive value''))"
| "to_strings [] = Inr []"
| "to_strings (x # xs) =
     (case (if x = JNull then Inr [] else to_string x) of
        Inl e \<Rightarrow> Inl e
      | Inr s \<Rightarrow>
          (case to_strings xs of
             Inl e \<Rightarrow> Inl e
           | Inr ss \<Rightarrow> Inr (s # ss)))"

section \<open>The two regular expressions of injectDevClient\<close>

text \<open>
  \<^verbatim>\<open>/(<head[^>]*>)/i\<close> at the start of a string: the five characters of \<^verbatim>\<open><head\<close>
  in either letter case, then every character up to the first \<^verbatim>\<open>>\<close>, which must exist.
  The result is the matched text and what follows it.
\<close>

definition is_head_prefix :: "string \<Rightarrow> bool" where
  "is_head_prefix s =
     (case s of
        c0 # c1 # c2 # c3 # c4 # _ \<Rightarrow>
          c0 = CHR ''<'' \<and> (c1 = CHR ''h'' \<or> c1 = CHR ''H'') \<and> (c2 = CHR ''e'' \<or> c2 = CHR ''E'')
          \<and> (c3 = CHR ''a'' \<or> c3 = CHR ''A'') \<and> (c4 = CHR ''d'' \<or> c4 = CHR ''D'')
      | _ \<Rightarrow> False)"

definition match_head :: "string \<Rightarrow> (string \<times> string) option" where
  "match_head s =
     (if is_head_prefix s then
        (let attrs = takeWhile (\<lambda>c. c \<noteq> CHR ''>'') (drop 5 s);
             rest = dropWhile (\<lambda>c. c \<noteq> CHR ''>'') (drop 5 s)
         in (case rest of
               [] \<Rightarrow> None
             | gt # post \<Rightarrow> Some (take 5 s @ attrs @ [gt], post)))
      else None)"

text \<open>The leftmost match in a string: the text in front of it, the match, the text behind it.\<close>

fun find_head :: "string \<Rightarrow> (string \<times> string \<times> string) option" where
  "find_head [] = None"
| "find_head (c # cs) =
     (case match_head (c # cs) of
        Some (tag, post) \<Rightarrow> Some ([], tag, post)
      | None \<Rightarrow>
          (case find_head cs of
             None \<Rightarrow> None
           | Some (pre, tag, post) \<Rightarrow> Some (c # pre, tag, post)))"

text \<open>
  The replacement text of \<^verbatim>\<open>String.prototype.replace\<close> with a string as its second
  argument (ECMAScript GetSubstitution), for a pattern with one capture group and no named
  group: \<^verbatim>\<open>$$\<close>, \<^verbatim>\<open>$&\<close>, \<^verbatim>\<open>$`\<close>, \<^verbatim>\<open>$'\<close>, \<^verbatim>\<open>$1\<close> and \<^verbatim>\<open>$01\<close> are
  expanded, every other character is copied.
\<close>

fun get_substitution :: "string \<Rightarrow> string \<Rightarrow> string \<Rightarrow> string \<Rightarrow> string \<Rightarrow> string" where
  "get_substitution matched pre post cap [] = []"
| "get_substitution matched pre post cap [c] = [c]"
| "get_substitution matched pre post cap (c # d # t) =
     (if c \<noteq> CHR ''$'' then c # get_substitution matched pre post cap (d # t)
      else if d = CHR ''$'' then CHR ''$'' # get_substitution matched pre post cap t
      else if d = CHR ''&'' then matched @ get_substitution matched pre post cap t
      else if d = CHR 0x60 then pre @ get_substitution matched pre post cap t
      else if d = sq then post @ get_substitution matched pre post cap t
      else if d = CHR ''1'' then cap @ get_substitution matched pre post cap t
      else if d = CHR ''0'' \<and> t \<noteq> [] \<and> hd t = CHR ''1''
        then cap @ get_substitution matched pre post cap (tl t)
      else c # get_substitution matched pre post cap (d # t))"

text \<open>\<^verbatim>\<open>html.replace(/(<head[^>]*>)/i, template)\<close>: the first match only.\<close>

definition replace_head :: "string \<Rightarrow> string \<Rightarrow> string" where
  "replace_head html template =
     (case find_head html of
        None \<Rightarrow> html
      | Some (pre, tag, post) \<Rightarrow>
          pre @ get_substitution tag pre post tag template @ post)"

text \<open>
  \<^verbatim>\<open>/(src|href)=["']\\/([^"']+)["']/g\<close> at the start of a string: the attribute name,
  \<^verbatim>\<open>=\<close>, a quote of either kind, a slash, one or more characters that are not quotes,
  and a quote of either kind. The result is the two groups and what follows the match.
\<close>

definition is_quote :: "char \<Rightarrow> bool" where
  "is_quote c = (c = dq \<or> c = sq)"

definition match_attr_name :: "string \<Rightarrow> (string \<times> string) option" where
  "match_attr_name s =
     (if take 3 s = ''src'' then Some (''src'', drop 3 s)
      else if take 4 s = ''href'' then Some (''href'', drop 4 s)
      else None)"

definition match_url :: "string \<Rightarrow> (string \<times> string \<times> string) option" where
  "match_url s =
     (case match_attr_name s of
        None \<Rightarrow> None
      | Some (attr, r) \<Rightarrow>
          (case r of
             e # q # sl # r2 \<Rightarrow>
               (if e = CHR ''='' \<and> is_quote q \<and> sl = CHR ''/'' then
                  (let urlPath = takeWhile (\<lambda>c. \<not> is_quote c) r2;
                       rest = dropWhile (\<lambda>c. \<not> is_quote c) r2
                   in (if urlPath = [] then None
                       else (case rest of [] \<Rightarrow> None | q2 # post \<Rightarrow> Some (attr, urlPath, post))))
                else None)
           | _ \<Rightarrow> None))"

lemma match_attr_name_SomeD:
  "match_attr_name s = Some (attr, r) \<Longrightarrow> s = attr @ r \<and> (attr = ''src'' \<or> attr = ''href'')"
proof -
  assume m: "match_attr_name s = Some (attr, r)"
  show ?thesis
  proof (cases "take 3 s = ''src''")
    case True
    with m have "attr = ''src''" and "r = drop 3 s"
      by (simp_all add: match_attr_name_def)
    moreover have "take 3 s @ drop 3 s = s" by (rule append_take_drop_id)
    ultimately show ?thesis using True by simp
  next
    case False
    with m have h: "take 4 s = ''href''"
      by (simp add: match_attr_name_def split: if_splits)
    with m False have "attr = ''href''" and "r = drop 4 s"
      by (simp_all add: match_attr_name_def)
    moreover have "take 4 s @ drop 4 s = s" by (rule append_take_drop_id)
    ultimately show ?thesis using h by simp
  qed
qed

lemma match_url_SomeD:
  assumes "match_url s = Some (attr, urlPath, post)"
  shows "\<exists>q q2. s = attr @ ''='' @ [q] @ ''/'' @ urlPath @ [q2] @ post
           \<and> (attr = ''src'' \<or> attr = ''href'') \<and> is_quote q \<and> is_quote q2
           \<and> urlPath \<noteq> [] \<and> list_all (\<lambda>c. \<not> is_quote c) urlPath"
proof -
  from assms obtain a0 r where a: "match_attr_name s = Some (a0, r)"
    by (cases "match_attr_name s") (auto simp: match_url_def)
  from assms a obtain e q sl r2 where r: "r = e # q # sl # r2"
    by (auto simp: match_url_def split: list.splits)
  from assms a r have c: "e = CHR ''=''" "is_quote q" "sl = CHR ''/''"
    by (auto simp: match_url_def split: if_splits)
  let ?P = "\<lambda>c. \<not> is_quote c"
  from assms a r c have u: "takeWhile ?P r2 \<noteq> []"
    by (auto simp: match_url_def Let_def split: if_splits)
  from assms a r c u have
    k: "(case dropWhile ?P r2 of [] \<Rightarrow> None | q2 # p \<Rightarrow> Some (a0, takeWhile ?P r2, p)) = Some (attr, urlPath, post)"
    by (simp add: match_url_def Let_def)
  then obtain q2 where d: "dropWhile ?P r2 = q2 # post" and e1: "a0 = attr" and e2: "urlPath = takeWhile ?P r2"
    by (cases "dropWhile ?P r2") auto
  have q2: "is_quote q2"
    using hd_dropWhile [of ?P r2] d by simp
  have "r2 = urlPath @ q2 # post"
    using takeWhile_dropWhile_id [of ?P r2] e2 d by simp
  moreover have "list_all ?P urlPath"
    unfolding e2 list_all_iff by (auto dest: set_takeWhileD)
  moreover note match_attr_name_SomeD [OF a] r c u q2 e1 e2
  ultimately show ?thesis by auto
qed

lemma match_url_shorter:
  "match_url s = Some (attr, urlPath, post) \<Longrightarrow> length post < length s"
  by (drule match_url_SomeD) auto

text \<open>
  The global replace with the callback of the source: the scan goes left to right, a
  match is replaced by \<^verbatim>\<open>attr="http://localhost:<port>/<urlPath>"\<close> and the scan goes
  on behind the match; a character where nothing matches is copied.
\<close>

function rewrite_urls :: "number \<Rightarrow> string \<Rightarrow> string" where
  "rewrite_urls port [] = []"
| "rewrite_urls port (c # cs) =
     (case match_url (c # cs) of
        Some (attr, urlPath, post) \<Rightarrow>
          attr @ ''='' @ [dq] @ ''http://localhost:'' @ number_text port @ ''/'' @ urlPath @ [dq]
            @ rewrite_urls port post
      | None \<Rightarrow> c # rewrite_urls port cs)"
  by pat_completeness auto
termination
  by (relation "measure (\<lambda>(port, s). length s)") (auto dest: match_url_shorter)

declare rewrite_urls.simps(2) [simp del]

section \<open>Where the two replacements can act\<close>

text \<open>
  Predicates on texts, for the statements about the two replacements. A text has no
  quote directly followed by a slash. Two characters follow each other somewhere in the
  fixed part \<^verbatim>\<open>(src|href)=["']\/\<close> of the second pattern.
\<close>

fun no_quote_slash :: "string \<Rightarrow> bool" where
  "no_quote_slash [] = True"
| "no_quote_slash [c] = True"
| "no_quote_slash (c # d # t) = (\<not> (is_quote c \<and> d = CHR ''/'') \<and> no_quote_slash (d # t))"

definition pattern_pair :: "char \<Rightarrow> char \<Rightarrow> bool" where
  "pattern_pair a b =
     ((a, b) \<in> set [(CHR ''s'', CHR ''r''), (CHR ''r'', CHR ''c''), (CHR ''c'', CHR ''=''),
                     (CHR ''h'', CHR ''r''), (CHR ''r'', CHR ''e''), (CHR ''e'', CHR ''f''),
                     (CHR ''f'', CHR ''='')]
      \<or> (a = CHR ''='' \<and> is_quote b) \<or> (is_quote a \<and> b = CHR ''/''))"

text \<open>
  A text is the beginning of a match that its own end leaves open: \<^verbatim>\<open>src=\<close> or
  \<^verbatim>\<open>href=\<close>, a quote, a slash, and then no further quote.
\<close>

definition open_url :: "string \<Rightarrow> bool" where
  "open_url s =
     (case match_attr_name s of
        None \<Rightarrow> False
      | Some (attr, r) \<Rightarrow>
          (case r of
             e # q # sl # r2 \<Rightarrow>
               e = CHR ''='' \<and> is_quote q \<and> sl = CHR ''/'' \<and> list_all (\<lambda>c. \<not> is_quote c) r2
           | _ \<Rightarrow> False))"

text \<open>
  The scan of the second replacement over a text comes to a place where such a beginning
  stands: an attribute value is left unclosed at the end of the text, and a quote in
  whatever follows the text would close it. The scan is that of \<open>rewrite_urls\<close>: behind a
  match it goes on behind the match.
\<close>

function dangling :: "string \<Rightarrow> bool" where
  "dangling [] = False"
| "dangling (c # cs) =
     (case match_url (c # cs) of
        Some (attr, urlPath, post) \<Rightarrow> dangling post
      | None \<Rightarrow> open_url (c # cs) \<or> dangling cs)"
  by pat_completeness auto
termination
  by (relation "measure length") (auto dest: match_url_shorter)

declare dangling.simps(2) [simp del]

text \<open>
  A replacement template holds a pattern that \<open>get_substitution\<close> expands: a dollar sign
  followed by a dollar sign, an ampersand, a backquote, a single quote, \<^verbatim>\<open>1\<close> or \<^verbatim>\<open>01\<close>.
\<close>

fun has_replacement_pattern :: "string \<Rightarrow> bool" where
  "has_replacement_pattern [] = False"
| "has_replacement_pattern [c] = False"
| "has_replacement_pattern (c # d # t) =
     ((c = CHR ''$'' \<and> (d = CHR ''$'' \<or> d = CHR ''&'' \<or> d = CHR 0x60 \<or> d = sq \<or> d = CHR ''1''
                         \<or> (d = CHR ''0'' \<and> t \<noteq> [] \<and> hd t = CHR ''1'')))
      \<or> has_replacement_pattern (d # t))"

text \<open>The part of a request's \<^verbatim>\<open>url\<close> in front of the query string.\<close>

definition url_path :: "string \<Rightarrow> string" where
  "url_path u = takeWhile (\<lambda>c. c \<noteq> CHR ''?'') u"

section \<open>The Node runtime and the world the plugin acts on\<close>

text \<open>
  The plugin uses \<^verbatim>\<open>node:fs\<close>, \<^verbatim>\<open>node:path\<close>, \<^verbatim>\<open>JSON\<close> and the global
  \<^verbatim>\<open>window\<close> through their interfaces only. They are the fields of a record, over any
  type \<open>'fs\<close> of file-system states, so every theorem holds for every behaviour of the
  runtime. \<open>existsSync\<close> never throws; a reading call returns a value or throws; a writing
  call returns the new file system together with the exception it threw, if any.
  \<open>window_href\<close> is \<open>None\<close> when the identifier \<^verbatim>\<open>window\<close> is not declared (plain Node),
  and otherwise the value of \<^verbatim>\<open>window?.location?.href\<close>, \<open>None\<close> for undefined.
\<close>

record 'fs node_api =
  path_resolve :: "string list \<Rightarrow> string"
  path_dirname :: "string \<Rightarrow> string"
  existsSync :: "'fs \<Rightarrow> string \<Rightarrow> bool"
  readFileSync :: "'fs \<Rightarrow> string \<Rightarrow> error + string"
  mkdirSync :: "'fs \<Rightarrow> string \<Rightarrow> error option \<times> 'fs"
  writeFileSync :: "'fs \<Rightarrow> string \<Rightarrow> string \<Rightarrow> error option \<times> 'fs"
  copyFileSync :: "'fs \<Rightarrow> string \<Rightarrow> string \<Rightarrow> error option \<times> 'fs"
  JSON_parse :: "string \<Rightarrow> error + json"
  JSON_stringify :: "json \<Rightarrow> string"
  window_href :: "string option option"
  module_dirname :: string

datatype console_entry =
    ConsoleLog string
  | ConsoleWarn string
  | ConsoleWarnError string error

record 'fs world =
  fsys :: 'fs
  console :: "console_entry list"

definition console_log :: "string \<Rightarrow> 'fs world \<Rightarrow> 'fs world" where
  "console_log msg w = w\<lparr>console := console w @ [ConsoleLog msg]\<rparr>"

definition console_warn :: "string \<Rightarrow> 'fs world \<Rightarrow> 'fs world" where
  "console_warn msg w = w\<lparr>console := console w @ [ConsoleWarn msg]\<rparr>"

definition console_warn_error :: "string \<Rightarrow> error \<Rightarrow> 'fs world \<Rightarrow> 'fs world" where
  "console_warn_error msg e w = w\<lparr>console := console w @ [ConsoleWarnError msg e]\<rparr>"

text \<open>A writing call of \<^verbatim>\<open>node:fs\<close> on the world: the file system it leaves, and its exception.\<close>

definition fs_call :: "('fs \<Rightarrow> error option \<times> 'fs) \<Rightarrow> 'fs world \<Rightarrow> error option \<times> 'fs world" where
  "fs_call f w = (case f (fsys w) of (r, fs') \<Rightarrow> (r, w\<lparr>fsys := fs'\<rparr>))"

section \<open>Configuration\<close>

record entrypoint =
  entry_input :: string
  entry_output :: string

text \<open>
  Of Vite's \<^verbatim>\<open>ResolvedConfig\<close> the plugin reads \<^verbatim>\<open>root\<close>. The plugin's variable
  \<^verbatim>\<open>config\<close> is undefined until \<^verbatim>\<open>configResolved\<close> has run: it is an option, and reading
  \<^verbatim>\<open>config.root\<close> of \<open>None\<close> throws a TypeError.
\<close>

record resolved_config =
  root :: string

definition default_entrypoints :: "entrypoint list" where
  "default_entrypoints = [\<lparr>entry_input = ''index.html'', entry_output = ''dist/index.html''\<rparr>]"

definition config_root :: "resolved_config option \<Rightarrow> error + string" where
  "config_root config =
     (case config of
        None \<Rightarrow> Inl (TypeError ''Cannot read properties of undefined (reading 'root')'')
      | Some c \<Rightarrow> Inr (root c))"

section \<open>getManifestId\<close>

text \<open>
  \<^verbatim>\<open>manifest.id\<close> of a parsed manifest: reading a property of \<^verbatim>\<open>null\<close> throws, an object
  gives the value of its last \<^verbatim>\<open>id\<close> key (\<open>None\<close> for undefined), every other value has no
  such property.
\<close>

definition manifest_id :: "json \<Rightarrow> error + json option" where
  "manifest_id manifest =
     (case manifest of
        JNull \<Rightarrow> Inl (TypeError ''Cannot read properties of null (reading 'id')'')
      | JObj kvs \<Rightarrow> Inr (map_of (rev kvs) ''id'')
      | _ \<Rightarrow> Inr None)"

text \<open>\<^verbatim>\<open>manifest.id || ""\<close>.\<close>

definition or_empty :: "json option \<Rightarrow> json" where
  "or_empty v = (case v of None \<Rightarrow> JStr [] | Some x \<Rightarrow> (if truthy x then x else JStr []))"

text \<open>
  The body of the \<^verbatim>\<open>try\<close> block: \<open>Inl\<close> for an exception, \<open>Inr (Some v)\<close> for
  \<^verbatim>\<open>return v\<close> inside the \<^verbatim>\<open>if\<close>, \<open>Inr None\<close> when the block ends without returning.
\<close>

definition getManifestId_try :: "'fs node_api \<Rightarrow> resolved_config option \<Rightarrow> 'fs \<Rightarrow> error + json option" where
  "getManifestId_try api config fs =
     (case config_root config of
        Inl e \<Rightarrow> Inl e
      | Inr r \<Rightarrow>
          (let manifestPath = path_resolve api [r, ''manifest.json'']
           in if existsSync api fs manifestPath then
                (case readFileSync api fs manifestPath of
                   Inl e \<Rightarrow> Inl e
                 | Inr txt \<Rightarrow>
                     (case JSON_parse api txt of
                        Inl e \<Rightarrow> Inl e
                      | Inr manifest \<Rightarrow>
                          (case manifest_id manifest of
                             Inl e \<Rightarrow> Inl e
                           | Inr v \<Rightarrow> Inr (Some (or_empty v)))))
              else Inr None))"

definition getManifestId :: "'fs node_api \<Rightarrow> resolved_config option \<Rightarrow> 'fs world \<Rightarrow> json \<times> 'fs world" where
  "getManifestId api config w =
     (case getManifestId_try api config (fsys w) of
        Inl e \<Rightarrow> (JStr [], console_warn_error ''[bks] Could not read manifest.json: '' e w)
      | Inr (Some v) \<Rightarrow> (v, w)
      | Inr None \<Rightarrow> (JStr [], w))"

section \<open>injectDevClient\<close>

text \<open>
  \<^verbatim>\<open>${manifestId ? `&manifestId=${manifestId}` : ''}\<close>, the part of both template
  literals that prints the identity: the conversion of a truthy identity can throw.
\<close>

definition manifest_param :: "json \<Rightarrow> error + string" where
  "manifest_param manifestId =
     (if truthy manifestId then
        (case to_string manifestId of
           Inl e \<Rightarrow> Inl e
         | Inr s \<Rightarrow> Inr (''&manifestId='' @ s))
      else Inr [])"

text \<open>
  The template literal \<^verbatim>\<open>clientScript\<close>, with its line breaks and indentation, for a
  port and the text of the identity part.
\<close>

definition client_script :: "number \<Rightarrow> string \<Rightarrow> string" where
  \<open>client_script port param =
     ''<script>'' @ [nl]
     @ ''      window.showViteError = function(e) {'' @ [nl]
     @ ''        const currentUrl = encodeURIComponent(window.location.href);'' @ [nl]
     @ ''        window.location.href = '' @ [sq] @ ''./error.html?port='' @ number_text port
     @ param
     @ ''&target='' @ [sq] @ '' + currentUrl;'' @ [nl]
     @ ''      };'' @ [nl]
     @ ''    </script>'' @ [nl]
     @ ''    <script type="module" src="http://localhost:'' @ number_text port
     @ ''/@vite/client" onerror="showViteError()"></script>''\<close>

text \<open>The replacement template \<^verbatim>\<open>`$1\n    ${clientScript}`\<close>, and its part behind \<^verbatim>\<open>$1\<close>.\<close>

definition injected :: "number \<Rightarrow> string \<Rightarrow> string" where
  "injected port param = [nl] @ ''    '' @ client_script port param"

definition head_template :: "number \<Rightarrow> string \<Rightarrow> string" where
  "head_template port param = ''$1'' @ injected port param"

text \<open>
  \<^verbatim>\<open>injectDevClient(html, port)\<close>. The source first reads the manifest identity, then
  evaluates \<^verbatim>\<open>encodeURIComponent(window?.location?.href || '')\<close> into \<^verbatim>\<open>currentUrl\<close>:
  that throws a ReferenceError when \<^verbatim>\<open>window\<close> is not declared. Then it builds
  \<^verbatim>\<open>errorUrl\<close> and \<^verbatim>\<open>clientScript\<close>, which print the port and the identity part: that
  throws when the conversion of the identity does. \<^verbatim>\<open>currentUrl\<close> and \<^verbatim>\<open>errorUrl\<close> are
  not used afterwards. Then come the two replacements.
\<close>

definition injectDevClient ::
  "'fs node_api \<Rightarrow> resolved_config option \<Rightarrow> string \<Rightarrow> number \<Rightarrow> 'fs world \<Rightarrow> (error + string) \<times> 'fs world" where
  "injectDevClient api config html port w =
     (case getManifestId api config w of
        (manifestId, w1) \<Rightarrow>
          (case window_href api of
             None \<Rightarrow> (Inl (ReferenceError ''window is not defined''), w1)
           | Some href \<Rightarrow>
               (case manifest_param manifestId of
                  Inl e \<Rightarrow> (Inl e, w1)
                | Inr param \<Rightarrow>
                    (let withClient = replace_head html (head_template port param)
                     in (Inr (rewrite_urls port withClient), w1)))))"

text \<open>
  The two sides of the place in the input where the first replacement inserts: the text
  up to the end of the leftmost match and the text behind it; without a match nothing
  is inserted, and the whole input is the first side. And the text that is inserted
  there: the template behind \<^verbatim>\<open>$1\<close>, with its replacement patterns expanded.
\<close>

definition head_sides :: "string \<Rightarrow> string \<times> string" where
  "head_sides html =
     (case find_head html of
        None \<Rightarrow> (html, [])
      | Some (pre, tag, post) \<Rightarrow> (pre @ tag, post))"

definition inserted :: "string \<Rightarrow> number \<Rightarrow> string \<Rightarrow> string" where
  "inserted html port param =
     (case find_head html of
        None \<Rightarrow> []
      | Some (pre, tag, post) \<Rightarrow> get_substitution tag pre post tag (injected port param))"

section \<open>writeEntrypoint\<close>

definition esc :: char where
  "esc = CHR 0x1B"

text \<open>The success line; the check mark and the arrow are their UTF-8 bytes.\<close>

definition transformed_message :: "entrypoint \<Rightarrow> string" where
  "transformed_message entry =
     [esc] @ ''[32m'' @ [CHR 0xE2, CHR 0x9C, CHR 0x93] @ [esc] @ ''[0m '' @ [esc] @ ''[36m[bks]'' @ [esc]
     @ ''[0m Transformed entrypoint: '' @ [esc] @ ''[33m'' @ entry_input entry @ [esc] @ ''[0m ''
     @ [CHR 0xE2, CHR 0x86, CHR 0x92] @ '' '' @ [esc] @ ''[33m'' @ entry_output entry @ [esc] @ ''[0m''"

text \<open>
  \<^verbatim>\<open>writeEntrypoint(entry, port)\<close>: the first component is the exception that left the
  function, \<open>None\<close> when it returned.
\<close>

definition writeEntrypoint ::
  "'fs node_api \<Rightarrow> resolved_config option \<Rightarrow> entrypoint \<Rightarrow> number \<Rightarrow> 'fs world \<Rightarrow> error option \<times> 'fs world" where
  "writeEntrypoint api config entry port w =
     (case config_root config of
        Inl e \<Rightarrow> (Some e, w)
      | Inr r \<Rightarrow>
          (let srcHtmlPath = path_resolve api [r, entry_input entry];
               outHtmlPath = path_resolve api [r, entry_output entry]
           in if \<not> existsSync api (fsys w) srcHtmlPath then
                (None, console_warn (''[bks] Source HTML not found: '' @ srcHtmlPath) w)
              else
                (case readFileSync api (fsys w) srcHtmlPath of
                   Inl e \<Rightarrow> (Some e, w)
                 | Inr html \<Rightarrow>
                     (case injectDevClient api config html port w of
                        (Inl e, w1) \<Rightarrow> (Some e, w1)
                      | (Inr html', w1) \<Rightarrow>
                          (case fs_call (\<lambda>fs. mkdirSync api fs (path_dirname api outHtmlPath)) w1 of
                             (Some e, w2) \<Rightarrow> (Some e, w2)
                           | (None, w2) \<Rightarrow>
                               (case fs_call (\<lambda>fs. writeFileSync api fs outHtmlPath html') w2 of
                                  (Some e, w3) \<Rightarrow> (Some e, w3)
                                | (None, w3) \<Rightarrow> (None, console_log (transformed_message entry) w3)))))))"

section \<open>The plugin's variables and the dev server\<close>

text \<open>
  \<^verbatim>\<open>portFromServer || server.config.server.port || 5173\<close>: the first operand that is
  defined and truthy.
\<close>

definition or_port :: "number option \<Rightarrow> number \<Rightarrow> number" where
  "or_port p d = (case p of None \<Rightarrow> d | Some n \<Rightarrow> (if number_truthy n then n else d))"

definition dev_port :: "number option \<Rightarrow> number option \<Rightarrow> number" where
  "dev_port fromServer configured = or_port fromServer (or_port configured (Number True ''5173''))"

text \<open>What \<^verbatim>\<open>server.httpServer.address()\<close> returns.\<close>

datatype address =
    AddressNull
  | AddressPipe string
  | AddressInfo number

datatype middleware =
    InfoEndpoint
  | OriginGuard

text \<open>
  A listener that \<^verbatim>\<open>watchFiles\<close> registers for \<^verbatim>\<open>change\<close>: the closure holds
  \<^verbatim>\<open>absPath\<close>, \<^verbatim>\<open>entry\<close> and the constant \<^verbatim>\<open>devPort\<close> of the call that registered it.
\<close>

record change_listener =
  absPath :: string
  entry :: entrypoint
  devPort :: number

text \<open>
  The plugin's closure variables (\<^verbatim>\<open>options\<close>, \<^verbatim>\<open>config\<close>, \<^verbatim>\<open>portFromServer\<close>) and
  what the plugin has registered with the dev server: the configured port
  \<^verbatim>\<open>server.config.server.port\<close>, whether \<^verbatim>\<open>server.httpServer\<close> exists, the middlewares in
  registration order, the watched paths, the change listeners in registration order, and
  whether the one-time \<^verbatim>\<open>listening\<close> handler is still registered.
\<close>

record dev_state =
  entrypoints :: "entrypoint list"
  config :: "resolved_config option"
  portFromServer :: "number option"
  server_port :: "number option"
  httpServer :: bool
  middlewares :: "middleware list"
  watched :: "string list"
  change_listeners :: "change_listener list"
  listening_once :: bool

definition bks :: "entrypoint list \<Rightarrow> number option \<Rightarrow> bool \<Rightarrow> dev_state" where
  "bks opts configured has_http =
     \<lparr>entrypoints = opts, config = None, portFromServer = None, server_port = configured,
      httpServer = has_http, middlewares = [], watched = [], change_listeners = [],
      listening_once = False\<rparr>"

definition configResolved :: "resolved_config \<Rightarrow> dev_state \<Rightarrow> dev_state" where
  "configResolved c st = st\<lparr>config := Some c\<rparr>"

text \<open>\<^verbatim>\<open>options.entrypoints.forEach((entry) => writeEntrypoint(entry, devPort))\<close>.\<close>

fun write_each ::
  "'fs node_api \<Rightarrow> resolved_config option \<Rightarrow> number \<Rightarrow> entrypoint list \<Rightarrow> 'fs world \<Rightarrow> error option \<times> 'fs world" where
  "write_each api cfg port [] w = (None, w)"
| "write_each api cfg port (e # es) w =
     (case writeEntrypoint api cfg e port w of
        (Some err, w1) \<Rightarrow> (Some err, w1)
      | (None, w1) \<Rightarrow> write_each api cfg port es w1)"

definition writeAll :: "'fs node_api \<Rightarrow> dev_state \<Rightarrow> 'fs world \<Rightarrow> error option \<times> 'fs world" where
  "writeAll api st w =
     (let p = dev_port (portFromServer st) (server_port st)
      in write_each api (config st) p (entrypoints st) w)"

text \<open>
  \<^verbatim>\<open>watchFiles(server)\<close>: \<^verbatim>\<open>devPort\<close> is computed once, before the loop; each
  entrypoint adds its path to the watcher and one listener.
\<close>

fun watch_each :: "'fs node_api \<Rightarrow> number \<Rightarrow> entrypoint list \<Rightarrow> dev_state \<Rightarrow> error option \<times> dev_state" where
  "watch_each api p [] st = (None, st)"
| "watch_each api p (e # es) st =
     (case config_root (config st) of
        Inl err \<Rightarrow> (Some err, st)
      | Inr r \<Rightarrow>
          (let a = path_resolve api [r, entry_input e]
           in watch_each api p es
                (st\<lparr>watched := watched st @ [a],
                    change_listeners := change_listeners st @ [\<lparr>absPath = a, entry = e, devPort = p\<rparr>]\<rparr>)))"

definition watchFiles :: "'fs node_api \<Rightarrow> dev_state \<Rightarrow> error option \<times> dev_state" where
  "watchFiles api st =
     (let p = dev_port (portFromServer st) (server_port st)
      in watch_each api p (entrypoints st) st)"

section \<open>copyDevFiles\<close>

text \<open>
  The first \<^verbatim>\<open>forEach\<close>: the output directory of each entrypoint, pushed unless the
  array already includes it.
\<close>

fun collect_output_dirs ::
  "'fs node_api \<Rightarrow> resolved_config option \<Rightarrow> entrypoint list \<Rightarrow> string list \<Rightarrow> error + string list" where
  "collect_output_dirs api cfg [] outputDirs = Inr outputDirs"
| "collect_output_dirs api cfg (e # es) outputDirs =
     (case config_root cfg of
        Inl err \<Rightarrow> Inl err
      | Inr r \<Rightarrow>
          (let outputDir = path_resolve api [r, path_dirname api (entry_output e)]
           in collect_output_dirs api cfg es
                (if outputDir \<in> set outputDirs then outputDirs else outputDirs @ [outputDir])))"

text \<open>\<^verbatim>\<open>if (fs.existsSync(src)) { fs.copyFileSync(src, dest) }\<close>.\<close>

definition copy_if_exists :: "'fs node_api \<Rightarrow> string \<Rightarrow> string \<Rightarrow> 'fs world \<Rightarrow> error option \<times> 'fs world" where
  "copy_if_exists api src dest w =
     (if existsSync api (fsys w) src then fs_call (\<lambda>fs. copyFileSync api fs src dest) w
      else (None, w))"

text \<open>The body of the second \<^verbatim>\<open>forEach\<close>, for one directory.\<close>

definition provision_dir ::
  "'fs node_api \<Rightarrow> resolved_config option \<Rightarrow> string \<Rightarrow> 'fs world \<Rightarrow> error option \<times> 'fs world" where
  "provision_dir api cfg dir w =
     (case (if \<not> existsSync api (fsys w) dir then fs_call (\<lambda>fs. mkdirSync api fs dir) w else (None, w)) of
        (Some err, w1) \<Rightarrow> (Some err, w1)
      | (None, w1) \<Rightarrow>
          (case config_root cfg of
             Inl err \<Rightarrow> (Some err, w1)
           | Inr r \<Rightarrow>
               (let eventForwarderSrc =
                      path_resolve api [r, ''node_modules/@beekeeperstudio/plugin/dist/eventForwarder.js'']
                in (case copy_if_exists api eventForwarderSrc (path_resolve api [dir, ''eventForwarder.js'']) w1 of
                      (Some err, w2) \<Rightarrow> (Some err, w2)
                    | (None, w2) \<Rightarrow>
                        (let errorPageSrc = path_resolve api [module_dirname api, ''../error.html'']
                         in copy_if_exists api errorPageSrc (path_resolve api [dir, ''error.html'']) w2)))))"

fun provision_each ::
  "'fs node_api \<Rightarrow> resolved_config option \<Rightarrow> string list \<Rightarrow> 'fs world \<Rightarrow> error option \<times> 'fs world" where
  "provision_each api cfg [] w = (None, w)"
| "provision_each api cfg (dir # dirs) w =
     (case provision_dir api cfg dir w of
        (Some err, w1) \<Rightarrow> (Some err, w1)
      | (None, w1) \<Rightarrow> provision_each api cfg dirs w1)"

text \<open>The \<^verbatim>\<open>try\<close> block of \<^verbatim>\<open>copyDevFiles\<close>.\<close>

definition copyDevFiles_try :: "'fs node_api \<Rightarrow> dev_state \<Rightarrow> 'fs world \<Rightarrow> error option \<times> 'fs world" where
  "copyDevFiles_try api st w =
     (case collect_output_dirs api (config st) (entrypoints st) [] of
        Inl err \<Rightarrow> (Some err, w)
      | Inr outputDirs \<Rightarrow>
          (case provision_each api (config st) outputDirs w of
             (Some err, w1) \<Rightarrow> (Some err, w1)
           | (None, w1) \<Rightarrow> (None, console_log ''[bks] Copied dev files to output directories'' w1)))"

text \<open>\<^verbatim>\<open>copyDevFiles\<close>: the \<^verbatim>\<open>catch\<close> logs the exception as a warning.\<close>

definition copyDevFiles :: "'fs node_api \<Rightarrow> dev_state \<Rightarrow> 'fs world \<Rightarrow> error option \<times> 'fs world" where
  "copyDevFiles api st w =
     (case copyDevFiles_try api st w of
        (Some err, w1) \<Rightarrow> (None, console_warn_error ''[bks] Could not copy dev files:'' err w1)
      | (None, w1) \<Rightarrow> (None, w1))"

section \<open>The middlewares\<close>

record request =
  url :: string
  origin :: "string option"

record response =
  status :: nat
  headers :: "(string \<times> string) list"
  body :: string

text \<open>
  What a middleware does with a request: it ends the response, it calls \<^verbatim>\<open>next()\<close>,
  or it throws.
\<close>

datatype outcome =
    Ended response
  | Next
  | Threw error

definition info_endpoint ::
  "'fs node_api \<Rightarrow> resolved_config option \<Rightarrow> request \<Rightarrow> 'fs world \<Rightarrow> outcome \<times> 'fs world" where
  "info_endpoint api cfg req w =
     (if url req = ''/__bks_vite_plugin__info'' then
        (case getManifestId api cfg w of
           (manifestId, w1) \<Rightarrow>
             (Ended \<lparr>status = 200,
                     headers = [(''Content-Type'', ''application/json''), (''Access-Control-Allow-Origin'', ''*'')],
                     body = JSON_stringify api (JObj [(''manifestId'', manifestId)])\<rparr>, w1))
      else (Next, w))"

definition origin_guard ::
  "'fs node_api \<Rightarrow> resolved_config option \<Rightarrow> request \<Rightarrow> 'fs world \<Rightarrow> outcome \<times> 'fs world" where
  "origin_guard api cfg req w =
     (case origin req of
        None \<Rightarrow> (Next, w)
      | Some orig \<Rightarrow>
          (if orig \<noteq> [] \<and> prefix ''plugin://'' orig then
             (case getManifestId api cfg w of
                (manifestId, w1) \<Rightarrow>
                  (if truthy manifestId then
                     (case to_string manifestId of
                        Inl e \<Rightarrow> (Threw e, w1)
                      | Inr s \<Rightarrow>
                          (if orig \<noteq> ''plugin://'' @ s
                           then (Ended \<lparr>status = 403, headers = [], body = []\<rparr>, w1)
                           else (Next, w1)))
                   else (Next, w1)))
           else (Next, w)))"

definition run_middleware ::
  "'fs node_api \<Rightarrow> resolved_config option \<Rightarrow> middleware \<Rightarrow> request \<Rightarrow> 'fs world \<Rightarrow> outcome \<times> 'fs world" where
  "run_middleware api cfg m req w =
     (case m of
        InfoEndpoint \<Rightarrow> info_endpoint api cfg req w
      | OriginGuard \<Rightarrow> origin_guard api cfg req w)"

text \<open>
  The chain in registration order: it stops at the first middleware that ends the
  response or throws; \<open>Next\<close> at its end hands the request to the dev server's own
  handlers.
\<close>

fun run_chain ::
  "'fs node_api \<Rightarrow> resolved_config option \<Rightarrow> middleware list \<Rightarrow> request \<Rightarrow> 'fs world \<Rightarrow> outcome \<times> 'fs world" where
  "run_chain api cfg [] req w = (Next, w)"
| "run_chain api cfg (m # ms) req w =
     (case run_middleware api cfg m req w of
        (Ended r, w1) \<Rightarrow> (Ended r, w1)
      | (Threw e, w1) \<Rightarrow> (Threw e, w1)
      | (Next, w1) \<Rightarrow> run_chain api cfg ms req w1)"

definition handle_request :: "'fs node_api \<Rightarrow> dev_state \<Rightarrow> request \<Rightarrow> 'fs world \<Rightarrow> outcome \<times> 'fs world" where
  "handle_request api st req w = run_chain api (config st) (middlewares st) req w"

section \<open>configureServer and the events\<close>

text \<open>
  \<^verbatim>\<open>configureServer(server)\<close>: copy the dev files, register the two middlewares,
  register the one-time \<^verbatim>\<open>listening\<close> handler when \<^verbatim>\<open>server.httpServer\<close> exists, then
  \<^verbatim>\<open>watchFiles(server)\<close>.
\<close>

definition configureServer ::
  "'fs node_api \<Rightarrow> dev_state \<Rightarrow> 'fs world \<Rightarrow> error option \<times> dev_state \<times> 'fs world" where
  "configureServer api st w =
     (case copyDevFiles api st w of
        (Some err, w1) \<Rightarrow> (Some err, st, w1)
      | (None, w1) \<Rightarrow>
          (let st1 = st\<lparr>middlewares := middlewares st @ [InfoEndpoint, OriginGuard]\<rparr>;
               st2 = (if httpServer st1 then st1\<lparr>listening_once := True\<rparr> else st1)
           in (case watchFiles api st2 of (r, st3) \<Rightarrow> (r, st3, w1))))"

text \<open>
  The http server emits \<^verbatim>\<open>listening\<close>: a handler registered with \<^verbatim>\<open>once\<close> is removed
  before it runs. It stores \<^verbatim>\<open>addr.port\<close> when \<^verbatim>\<open>addr\<close> is an object with a truthy
  port, and calls \<^verbatim>\<open>writeAll\<close>.
\<close>

definition capture_port :: "address \<Rightarrow> dev_state \<Rightarrow> dev_state" where
  "capture_port addr st =
     (case addr of
        AddressInfo p \<Rightarrow> (if number_truthy p then st\<lparr>portFromServer := Some p\<rparr> else st)
      | _ \<Rightarrow> st)"

definition emit_listening ::
  "'fs node_api \<Rightarrow> address \<Rightarrow> dev_state \<Rightarrow> 'fs world \<Rightarrow> error option \<times> dev_state \<times> 'fs world" where
  "emit_listening api addr st w =
     (if listening_once st then
        (let st1 = capture_port addr (st\<lparr>listening_once := False\<rparr>)
         in (case writeAll api st1 w of (r, w1) \<Rightarrow> (r, st1, w1)))
      else (None, st, w))"

text \<open>
  The watcher emits \<^verbatim>\<open>change\<close> with a path: the listeners run in registration order,
  and an exception thrown by one leaves the emit.
\<close>

fun run_listeners ::
  "'fs node_api \<Rightarrow> resolved_config option \<Rightarrow> string \<Rightarrow> change_listener list \<Rightarrow> 'fs world \<Rightarrow> error option \<times> 'fs world" where
  "run_listeners api cfg changed [] w = (None, w)"
| "run_listeners api cfg changed (l # ls) w =
     (if path_resolve api [changed] = absPath l then
        (case writeEntrypoint api cfg (entry l) (devPort l) w of
           (Some err, w1) \<Rightarrow> (Some err, w1)
         | (None, w1) \<Rightarrow> run_listeners api cfg changed ls w1)
      else run_listeners api cfg changed ls w)"

definition emit_change :: "'fs node_api \<Rightarrow> string \<Rightarrow> dev_state \<Rightarrow> 'fs world \<Rightarrow> error option \<times> 'fs world" where
  "emit_change api changed st w = run_listeners api (config st) changed (change_listeners st) w"

section \<open>A small runtime for concrete runs\<close>

text \<open>
  The concrete runs below need one runtime. Its file system maps absolute paths to files
  and directories; a directory may be read-only. Paths are resolved as POSIX
  \<^verbatim>\<open>path.resolve\<close> does, from the working directory \<^verbatim>\<open>/\<close>.
\<close>

datatype node =
    File string
  | Dir
  | ReadOnlyDir

type_synonym node_fs = "(string \<times> node) list"

fun split_slash :: "string \<Rightarrow> string list" where
  "split_slash [] = [[]]"
| "split_slash (c # cs) =
     (if c = CHR ''/'' then [] # split_slash cs
      else (case split_slash cs of [] \<Rightarrow> [[c]] | p # ps \<Rightarrow> (c # p) # ps))"

fun normalize_parts :: "string list \<Rightarrow> string list \<Rightarrow> string list" where
  "normalize_parts [] acc = rev acc"
| "normalize_parts (p # ps) acc =
     (if p = [] \<or> p = ''.'' then normalize_parts ps acc
      else if p = ''..'' then normalize_parts ps (tl acc)
      else normalize_parts ps (p # acc))"

fun join_slash :: "string list \<Rightarrow> string" where
  "join_slash [] = []"
| "join_slash (p # ps) = CHR ''/'' # p @ join_slash ps"

fun resolve_parts :: "string list \<Rightarrow> string list \<Rightarrow> string list" where
  "resolve_parts acc [] = acc"
| "resolve_parts acc (seg # segs) =
     (if seg \<noteq> [] \<and> hd seg = CHR ''/'' then resolve_parts (split_slash seg) segs
      else resolve_parts (acc @ split_slash seg) segs)"

definition posix_resolve :: "string list \<Rightarrow> string" where
  "posix_resolve segs =
     (let parts = normalize_parts (resolve_parts [] segs) []
      in if parts = [] then ''/'' else join_slash parts)"

definition posix_dirname :: "string \<Rightarrow> string" where
  "posix_dirname p =
     (let parts = split_slash p
      in if length parts \<le> 1 then ''.''
         else if butlast parts = [[]] then ''/''
         else tl (join_slash (butlast parts)))"

definition fs_exists :: "node_fs \<Rightarrow> string \<Rightarrow> bool" where
  "fs_exists fs p = (map_of fs p \<noteq> None)"

definition fs_read :: "node_fs \<Rightarrow> string \<Rightarrow> error + string" where
  "fs_read fs p =
     (case map_of fs p of
        None \<Rightarrow> Inl (SystemError ''ENOENT'')
      | Some (File c) \<Rightarrow> Inr c
      | Some d \<Rightarrow> Inl (SystemError ''EISDIR''))"

text \<open>Every ancestor of a path, the root first, and the path itself last.\<close>

definition ancestors :: "string \<Rightarrow> string list" where
  "ancestors p =
     (let parts = normalize_parts (split_slash p) []
      in map (\<lambda>n. join_slash (take n parts)) [1 ..< Suc (length parts)])"

fun mkdir_chain :: "string list \<Rightarrow> bool \<Rightarrow> node_fs \<Rightarrow> error option \<times> node_fs" where
  "mkdir_chain [] writable fs = (None, fs)"
| "mkdir_chain (d # ds) writable fs =
     (case map_of fs d of
        Some (File c) \<Rightarrow> (Some (SystemError (if ds = [] then ''EEXIST'' else ''ENOTDIR'')), fs)
      | Some Dir \<Rightarrow> mkdir_chain ds True fs
      | Some ReadOnlyDir \<Rightarrow> mkdir_chain ds False fs
      | None \<Rightarrow>
          (if writable then mkdir_chain ds True (fs @ [(d, Dir)])
           else (Some (SystemError ''EACCES''), fs)))"

definition fs_mkdir :: "node_fs \<Rightarrow> string \<Rightarrow> error option \<times> node_fs" where
  "fs_mkdir fs p = mkdir_chain (ancestors p) True fs"

definition fs_write :: "node_fs \<Rightarrow> string \<Rightarrow> string \<Rightarrow> error option \<times> node_fs" where
  "fs_write fs p content =
     (case map_of fs p of
        Some Dir \<Rightarrow> (Some (SystemError ''EISDIR''), fs)
      | Some ReadOnlyDir \<Rightarrow> (Some (SystemError ''EISDIR''), fs)
      | _ \<Rightarrow>
          (case map_of fs (posix_dirname p) of
             None \<Rightarrow> (if posix_dirname p = ''/'' then (None, AList.update p (File content) fs)
                       else (Some (SystemError ''ENOENT''), fs))
           | Some (File c) \<Rightarrow> (Some (SystemError ''ENOTDIR''), fs)
           | Some Dir \<Rightarrow> (None, AList.update p (File content) fs)
           | Some ReadOnlyDir \<Rightarrow>
               (if map_of fs p = None then (Some (SystemError ''EACCES''), fs)
                else (None, AList.update p (File content) fs))))"

definition fs_copy :: "node_fs \<Rightarrow> string \<Rightarrow> string \<Rightarrow> error option \<times> node_fs" where
  "fs_copy fs src dest =
     (case fs_read fs src of
        Inl e \<Rightarrow> (Some e, fs)
      | Inr content \<Rightarrow> fs_write fs dest content)"

text \<open>
  \<^verbatim>\<open>JSON.parse\<close> and \<^verbatim>\<open>JSON.stringify\<close> on the few documents the runs use: a text that is
  not in the table is taken as invalid JSON.
\<close>

definition json_documents :: "(string \<times> json) list" where
  \<open>json_documents =
     [(''{"id": "abc123"}'', JObj [(''id'', JStr ''abc123'')]),
      (''{"name": "demo"}'', JObj [(''name'', JStr ''demo'')]),
      (''{"manifestId":"abc123"}'', JObj [(''manifestId'', JStr ''abc123'')]),
      (''{"manifestId":""}'', JObj [(''manifestId'', JStr [])]),
      (''{"id": {"toString": null}}'', JObj [(''id'', JObj [(''toString'', JNull)])]),
      (''{"id": "a$&b"}'', JObj [(''id'', JStr ''a$&b'')]),
      (''{"id": "src='/x"}'', JObj [(''id'', JStr ''src='/x'')]),
      (''null'', JNull)]\<close>

definition json_parse :: "string \<Rightarrow> error + json" where
  "json_parse txt =
     (case map_of json_documents txt of
        None \<Rightarrow> Inl (SyntaxError ''Unexpected token'')
      | Some v \<Rightarrow> Inr v)"

definition json_stringify :: "json \<Rightarrow> string" where
  "json_stringify v =
     (case map_of (map (\<lambda>(t, j). (j, t)) json_documents) v of
        None \<Rightarrow> []
      | Some t \<Rightarrow> t)"

definition runtime :: "string option option \<Rightarrow> node_fs node_api" where
  "runtime win =
     \<lparr>path_resolve = posix_resolve, path_dirname = posix_dirname, existsSync = fs_exists,
      readFileSync = fs_read, mkdirSync = fs_mkdir, writeFileSync = fs_write,
      copyFileSync = fs_copy, JSON_parse = json_parse, JSON_stringify = json_stringify,
      window_href = win, module_dirname = ''/p/node_modules/@beekeeperstudio/vite-plugin/dist''\<rparr>"

text \<open>Plain Node declares no \<^verbatim>\<open>window\<close>; the second runtime is one that does.\<close>

definition node_runtime :: "node_fs node_api" where
  "node_runtime = runtime None"

definition window_runtime :: "node_fs node_api" where
  "window_runtime = runtime (Some None)"

section \<open>Concrete inputs\<close>

definition demo_config :: "resolved_config option" where
  "demo_config = Some \<lparr>root = ''/p''\<rparr>"

text \<open>A project at \<^verbatim>\<open>/p\<close> with a manifest and the entrypoint of the specification's example.\<close>

definition demo_world :: "node_fs world" where
  \<open>demo_world =
     \<lparr>fsys = [(''/p'', Dir),
              (''/p/manifest.json'', File ''{"id": "abc123"}''),
              (''/p/index.html'', File ''<head></head><img src="/logo.png">'')],
      console = []\<rparr>\<close>

definition manifest_world :: "node \<Rightarrow> node_fs world" where
  "manifest_world n = \<lparr>fsys = [(''/p'', Dir), (''/p/manifest.json'', n)], console = []\<rparr>"

definition empty_world :: "node_fs world" where
  "empty_world = \<lparr>fsys = [(''/p'', Dir)], console = []\<rparr>"

text \<open>The plugin with its default entrypoint, configured port 5173, after \<^verbatim>\<open>configResolved\<close>.\<close>

definition demo_state :: dev_state where
  "demo_state =
     configResolved \<lparr>root = ''/p''\<rparr> (bks default_entrypoints (Some (Number True ''5173'')) True)"

section \<open>The scan of the second replacement\<close>

lemma match_attr_name_append:
  "attr = ''src'' \<or> attr = ''href'' \<Longrightarrow> match_attr_name (attr @ r) = Some (attr, r)"
  by (auto simp: match_attr_name_def)

lemma match_url_literal:
  assumes "attr = ''src'' \<or> attr = ''href''" and "is_quote q1" and "is_quote q2"
    and "urlPath \<noteq> []" and "list_all (\<lambda>c. \<not> is_quote c) urlPath"
  shows "match_url (attr @ ''='' @ [q1] @ ''/'' @ urlPath @ [q2] @ post) = Some (attr, urlPath, post)"
proof -
  let ?P = "\<lambda>c. \<not> is_quote c"
  have a: "\<And>x. x \<in> set urlPath \<Longrightarrow> ?P x"
    using assms(5) by (simp add: list_all_iff)
  have t: "takeWhile ?P (urlPath @ q2 # post) = urlPath"
    using a assms(3) by (simp add: takeWhile_append2)
  have d: "dropWhile ?P (urlPath @ q2 # post) = q2 # post"
    using a assms(3) by (simp add: dropWhile_append2)
  have "match_url (attr @ CHR ''='' # q1 # CHR ''/'' # urlPath @ q2 # post) = Some (attr, urlPath, post)"
    unfolding match_url_def
    using match_attr_name_append [OF assms(1)] assms(2,4) t d by (simp add: Let_def)
  then show ?thesis by simp
qed

lemma rewrite_urls_match:
  "match_url s = Some (attr, urlPath, post) \<Longrightarrow>
     rewrite_urls port s =
       attr @ ''='' @ [dq] @ ''http://localhost:'' @ number_text port @ ''/'' @ urlPath @ [dq]
         @ rewrite_urls port post"
  by (cases s) (auto simp: rewrite_urls.simps match_url_def match_attr_name_def)

lemma rewrite_urls_no_match:
  "match_url (c # cs) = None \<Longrightarrow> rewrite_urls port (c # cs) = c # rewrite_urls port cs"
  by (simp add: rewrite_urls.simps)

lemma no_quote_slash_Cons:
  "no_quote_slash (c # t) = (\<not> (is_quote c \<and> t \<noteq> [] \<and> hd t = CHR ''/'') \<and> no_quote_slash t)"
  by (cases t) auto

lemma no_quote_slash_append:
  "no_quote_slash (a @ b) =
     (no_quote_slash a \<and> no_quote_slash b \<and> \<not> (a \<noteq> [] \<and> b \<noteq> [] \<and> is_quote (last a) \<and> hd b = CHR ''/''))"
proof (induction a)
  case Nil
  then show ?case by simp
next
  case (Cons c a)
  show ?case
    unfolding append_Cons no_quote_slash_Cons [of c "a @ b"] no_quote_slash_Cons [of c a] Cons.IH
    by (cases a) auto
qed

lemma no_quote_slash_match_url:
  assumes "no_quote_slash s"
  shows "match_url s = None"
proof (cases "match_url s")
  case None
  then show ?thesis .
next
  case (Some m)
  obtain attr urlPath post where m: "m = (attr, urlPath, post)"
    by (cases m)
  from match_url_SomeD [OF Some [unfolded m]]
  obtain q q2 where s: "s = (attr @ ''='') @ (q # CHR ''/'' # urlPath @ [q2] @ post)" and q: "is_quote q"
    by auto
  have "\<not> no_quote_slash (q # CHR ''/'' # urlPath @ [q2] @ post)"
    using q by simp
  then have "\<not> no_quote_slash s"
    unfolding s no_quote_slash_append by blast
  with assms show ?thesis by simp
qed

lemma no_quote_slash_rewrite_urls:
  "no_quote_slash s \<Longrightarrow> rewrite_urls port s = s"
proof (induction s)
  case Nil
  then show ?case by (simp add: rewrite_urls.simps)
next
  case (Cons c s)
  from Cons.prems have "no_quote_slash s"
    by (simp add: no_quote_slash_Cons)
  with Cons.IH have "rewrite_urls port s = s" by simp
  moreover from Cons.prems have "match_url (c # s) = None"
    by (rule no_quote_slash_match_url)
  ultimately show ?case by (simp add: rewrite_urls_no_match)
qed

lemma length_rewrite_urls: "length s \<le> length (rewrite_urls port s)"
proof (induction port s rule: rewrite_urls.induct)
  case (1 port)
  then show ?case by simp
next
  case (2 port c cs)
  show ?case
  proof (cases "match_url (c # cs)")
    case None
    with 2 show ?thesis by (simp add: rewrite_urls_no_match)
  next
    case (Some m)
    obtain attr urlPath post where m: "m = (attr, urlPath, post)"
      by (cases m)
    from match_url_SomeD [OF Some [unfolded m]]
    obtain q q2 where s: "c # cs = attr @ ''='' @ [q] @ ''/'' @ urlPath @ [q2] @ post"
      by auto
    have "length (c # cs) = length attr + length urlPath + length post + 4"
      unfolding s by simp
    moreover have "length post \<le> length (rewrite_urls port post)"
      using 2 Some m by simp
    moreover have "length (rewrite_urls port (c # cs)) =
        length attr + 19 + length (number_text port) + 1 + length urlPath + 1 + length (rewrite_urls port post)"
      using rewrite_urls_match [OF Some [unfolded m], of port] by simp
    ultimately show ?thesis by simp
  qed
qed

lemma dangling_match:
  "match_url s = Some (attr, urlPath, post) \<Longrightarrow> dangling s = dangling post"
  by (cases s) (auto simp: dangling.simps(2) match_url_def match_attr_name_def)

lemma dangling_no_match:
  "match_url (c # cs) = None \<Longrightarrow> dangling (c # cs) = (open_url (c # cs) \<or> dangling cs)"
  by (simp add: dangling.simps(2))

lemma dangling_open_suffix: "dangling s \<Longrightarrow> \<exists>t. suffix t s \<and> open_url t"
proof (induction s rule: dangling.induct)
  case 1
  then show ?case by simp
next
  case (2 c cs)
  show ?case
  proof (cases "match_url (c # cs)")
    case None
    with 2(3) have "open_url (c # cs) \<or> dangling cs"
      by (simp add: dangling_no_match)
    then show ?thesis
    proof
      assume "open_url (c # cs)"
      then show ?thesis by blast
    next
      assume "dangling cs"
      from 2(1) [OF None this] obtain t where "suffix t cs" "open_url t"
        by blast
      then show ?thesis by (meson suffix_ConsI)
    qed
  next
    case (Some m)
    obtain attr urlPath post where m: "m = (attr, urlPath, post)"
      by (cases m)
    from match_url_SomeD [OF Some [unfolded m]] obtain z where z: "c # cs = z @ post"
      by auto
    from 2(3) Some m have "dangling post"
      by (simp add: dangling_match)
    from 2(2) [OF Some [unfolded m] refl refl this] obtain t where "suffix t post" "open_url t"
      by blast
    then show ?thesis unfolding z by (meson suffix_appendI)
  qed
qed

lemma open_url_literal:
  assumes "attr = ''src'' \<or> attr = ''href''" and "is_quote q" and "list_all (\<lambda>c. \<not> is_quote c) r"
  shows "open_url (attr @ CHR ''='' # q # CHR ''/'' # r)"
  unfolding open_url_def using match_attr_name_append [OF assms(1)] assms(2,3) by simp

lemma seam_pair:
  "X \<noteq> [] \<Longrightarrow> vs \<noteq> [] \<Longrightarrow> (last X, hd vs) \<in> set (zip (X @ vs) (tl (X @ vs)))"
proof (induction X rule: list_nonempty_induct)
  case (single x)
  then show ?case by (cases vs) auto
next
  case (cons x xs)
  then have "(last xs, hd vs) \<in> set (zip (xs @ vs) (tl (xs @ vs)))"
    by simp
  moreover obtain y ys where "xs @ vs = y # ys"
    using cons.hyps by (cases "xs @ vs") auto
  ultimately show ?case using cons.hyps by auto
qed

lemma seam_chars:
  assumes "attr = ''src'' \<or> attr = ''href''" and "X @ vs = attr @ [CHR ''='', q, CHR ''/'']"
    and "X \<noteq> []" and "vs \<noteq> []" and "is_quote q"
  shows "pattern_pair (last X) (hd vs)"
proof -
  from seam_pair [OF assms(3,4)]
  have p: "(last X, hd vs) \<in> set (zip (attr @ [CHR ''='', q, CHR ''/'']) (tl (attr @ [CHR ''='', q, CHR ''/''])))"
    unfolding assms(2) .
  from assms(1) show ?thesis
  proof
    assume "attr = ''src''"
    with p have "(last X, hd vs) \<in> {(CHR ''s'', CHR ''r''), (CHR ''r'', CHR ''c''), (CHR ''c'', CHR ''=''),
        (CHR ''='', q), (q, CHR ''/'')}"
      by simp
    with assms(5) show ?thesis
      unfolding pattern_pair_def by auto
  next
    assume "attr = ''href''"
    with p have "(last X, hd vs) \<in> {(CHR ''h'', CHR ''r''), (CHR ''r'', CHR ''e''), (CHR ''e'', CHR ''f''),
        (CHR ''f'', CHR ''=''), (CHR ''='', q), (q, CHR ''/'')}"
      by simp
    with assms(5) show ?thesis
      unfolding pattern_pair_def by auto
  qed
qed

text \<open>
  When nothing matches at the start of a text, no attribute value is left unclosed in it,
  and its end does not make up the fixed part of the pattern with the beginning of what
  follows, nothing matches there with any text appended.
\<close>

lemma match_url_append_None:
  assumes n: "match_url X = None" and d: "\<not> open_url X" and x: "X \<noteq> []"
    and seam: "\<And>vs attr q. vs \<noteq> [] \<Longrightarrow> prefix vs Y \<Longrightarrow> attr = ''src'' \<or> attr = ''href'' \<Longrightarrow> is_quote q
        \<Longrightarrow> X @ vs \<noteq> attr @ [CHR ''='', q, CHR ''/'']"
  shows "match_url (X @ Y) = None"
proof (cases "match_url (X @ Y)")
  case None
  then show ?thesis .
next
  case (Some m)
  obtain attr urlPath post where m: "m = (attr, urlPath, post)"
    by (cases m)
  from match_url_SomeD [OF Some [unfolded m]]
  obtain q q2 where e: "X @ Y = (attr @ CHR ''='' # q # CHR ''/'' # urlPath @ [q2]) @ post"
    and a: "attr = ''src'' \<or> attr = ''href''" and q: "is_quote q" and q2: "is_quote q2"
    and u: "urlPath \<noteq> []" and l: "list_all (\<lambda>c. \<not> is_quote c) urlPath"
    by auto
  from e obtain us where
    "(X = (attr @ CHR ''='' # q # CHR ''/'' # urlPath @ [q2]) @ us \<and> us @ Y = post)
     \<or> (X @ us = attr @ CHR ''='' # q # CHR ''/'' # urlPath @ [q2] \<and> Y = us @ post)"
    unfolding append_eq_append_conv2 by blast
  then consider
      (whole) us' where "X = (attr @ CHR ''='' # q # CHR ''/'' # urlPath @ [q2]) @ us'"
    | (part) "X @ us = attr @ CHR ''='' # q # CHR ''/'' # urlPath @ [q2]" "Y = us @ post" "us \<noteq> []"
    by (cases "us = []") auto
  then show ?thesis
  proof cases
    case whole
    have "match_url X = Some (attr, urlPath, us')"
      unfolding whole using match_url_literal [OF a q q2 u l, of us'] by simp
    with n show ?thesis by simp
  next
    case part
    from part(3) obtain ini z where us: "us = ini @ [z]"
      by (cases us rule: rev_cases) auto
    from part(1) have b: "X @ ini = (attr @ [CHR ''='', q, CHR ''/'']) @ urlPath"
      unfolding us by simp
    then obtain vs where
      "(X = (attr @ [CHR ''='', q, CHR ''/'']) @ vs \<and> vs @ ini = urlPath)
       \<or> (X @ vs = attr @ [CHR ''='', q, CHR ''/''] \<and> ini = vs @ urlPath)"
      unfolding append_eq_append_conv2 by blast
    then consider
        (inside) vs' where "X = (attr @ [CHR ''='', q, CHR ''/'']) @ vs'" "vs' @ ini = urlPath"
      | (fixed) "X @ vs = attr @ [CHR ''='', q, CHR ''/'']" "ini = vs @ urlPath" "vs \<noteq> []"
      by (cases "vs = []") auto
    then show ?thesis
    proof cases
      case inside
      from inside(2) l have "list_all (\<lambda>c. \<not> is_quote c) vs'"
        by (auto simp: list_all_iff)
      from open_url_literal [OF a q this] have "open_url X"
        unfolding inside(1) by simp
      with d show ?thesis by simp
    next
      case fixed
      from part(2) fixed(2) have "prefix vs Y"
        unfolding us by simp
      from seam [OF fixed(3) this a q] fixed(1) show ?thesis by simp
    qed
  qed
qed

lemma rewrite_urls_append_gen:
  assumes "\<not> dangling X"
    and "\<And>u vs attr q. suffix u X \<Longrightarrow> u \<noteq> [] \<Longrightarrow> vs \<noteq> [] \<Longrightarrow> prefix vs Y \<Longrightarrow> attr = ''src'' \<or> attr = ''href''
        \<Longrightarrow> is_quote q \<Longrightarrow> u @ vs \<noteq> attr @ [CHR ''='', q, CHR ''/'']"
  shows "rewrite_urls port (X @ Y) = rewrite_urls port X @ rewrite_urls port Y"
  using assms
proof (induction port X rule: rewrite_urls.induct)
  case (1 port)
  then show ?case by simp
next
  case (2 port c cs)
  note seam = 2(4)
  show ?case
  proof (cases "match_url (c # cs)")
    case None
    from 2(3) None have o: "\<not> open_url (c # cs)" and d: "\<not> dangling cs"
      by (simp_all add: dangling_no_match)
    have n: "match_url ((c # cs) @ Y) = None"
      by (rule match_url_append_None [OF None o]) (use seam [of "c # cs"] in auto)
    have "rewrite_urls port (cs @ Y) = rewrite_urls port cs @ rewrite_urls port Y"
    proof (rule 2(1) [OF None d])
      fix u vs attr q
      assume "suffix u cs" "u \<noteq> []" "vs \<noteq> []" "prefix vs Y" "attr = ''src'' \<or> attr = ''href''" "is_quote q"
      moreover from \<open>suffix u cs\<close> have "suffix u (c # cs)"
        by (rule suffix_ConsI)
      ultimately show "u @ vs \<noteq> attr @ [CHR ''='', q, CHR ''/'']"
        using seam by blast
    qed
    with n None show ?thesis by (simp add: rewrite_urls_no_match)
  next
    case (Some m)
    obtain attr urlPath post where m: "m = (attr, urlPath, post)"
      by (cases m)
    from match_url_SomeD [OF Some [unfolded m]]
    obtain q q2 where s: "c # cs = (attr @ ''='' @ [q] @ ''/'' @ urlPath @ [q2]) @ post"
      and a: "attr = ''src'' \<or> attr = ''href''" and q: "is_quote q" and q2: "is_quote q2"
      and u: "urlPath \<noteq> []" and l: "list_all (\<lambda>c. \<not> is_quote c) urlPath"
      by auto
    have my: "match_url ((c # cs) @ Y) = Some (attr, urlPath, post @ Y)"
      unfolding s using match_url_literal [OF a q q2 u l, of "post @ Y"] by simp
    from 2(3) Some m have d: "\<not> dangling post"
      by (simp add: dangling_match)
    have "rewrite_urls port (post @ Y) = rewrite_urls port post @ rewrite_urls port Y"
    proof (rule 2(2) [OF Some [unfolded m] refl refl d])
      fix u vs attr' q'
      assume "suffix u post" "u \<noteq> []" "vs \<noteq> []" "prefix vs Y" "attr' = ''src'' \<or> attr' = ''href''" "is_quote q'"
      moreover from \<open>suffix u post\<close> have "suffix u (c # cs)"
        unfolding s by (rule suffix_appendI)
      ultimately show "u @ vs \<noteq> attr' @ [CHR ''='', q', CHR ''/'']"
        using seam by blast
    qed
    with rewrite_urls_match [OF my, of port] rewrite_urls_match [OF Some [unfolded m], of port]
    show ?thesis by simp
  qed
qed

lemma rewrite_urls_append:
  assumes "\<not> dangling X" and "X = [] \<or> Y = [] \<or> \<not> pattern_pair (last X) (hd Y)"
  shows "rewrite_urls port (X @ Y) = rewrite_urls port X @ rewrite_urls port Y"
proof (rule rewrite_urls_append_gen [OF assms(1)])
  fix u vs attr q
  assume h: "suffix u X" "u \<noteq> []" "vs \<noteq> []" "prefix vs Y" "attr = ''src'' \<or> attr = ''href''" "is_quote q"
  show "u @ vs \<noteq> attr @ [CHR ''='', q, CHR ''/'']"
  proof
    assume "u @ vs = attr @ [CHR ''='', q, CHR ''/'']"
    from seam_chars [OF h(5) this h(2,3,6)] have "pattern_pair (last u) (hd vs)" .
    moreover from h(1,2) have "X \<noteq> []" and "last u = last X"
      by (auto simp: suffix_def)
    moreover from h(3,4) have "Y \<noteq> []" and "hd vs = hd Y"
      by (auto simp: prefix_def)
    ultimately show False using assms(2) by simp
  qed
qed

section \<open>The first replacement and the inserted script\<close>

lemma get_substitution_plain:
  "\<not> has_replacement_pattern t \<Longrightarrow> get_substitution m b a c t = t"
  by (induction m b a c t rule: get_substitution.induct) auto

lemma get_substitution_dollar1:
  "get_substitution m b a c (''$1'' @ t) = c @ get_substitution m b a c t"
  by (simp add: sq_def)

lemma match_head_SomeD:
  assumes "match_head s = Some (tag, post)"
  shows "s = tag @ post \<and> is_head_prefix tag \<and> tag \<noteq> [] \<and> last tag = CHR ''>''
    \<and> CHR ''>'' \<notin> set (butlast (drop 5 tag))"
proof -
  let ?P = "\<lambda>c. c \<noteq> CHR ''>''"
  from assms have h: "is_head_prefix s"
    by (simp add: match_head_def split: if_splits)
  then have l: "5 \<le> length s"
    by (auto simp: is_head_prefix_def split: list.splits)
  from assms h obtain gt where d: "dropWhile ?P (drop 5 s) = gt # post"
    and t: "tag = take 5 s @ takeWhile ?P (drop 5 s) @ [gt]"
    by (auto simp: match_head_def Let_def split: list.splits)
  have gt: "gt = CHR ''>''"
    using hd_dropWhile [of ?P "drop 5 s"] d by simp
  have "take 5 s @ (takeWhile ?P (drop 5 s) @ dropWhile ?P (drop 5 s)) = s"
    by simp
  then have s: "s = tag @ post"
    unfolding d t by simp
  have "take 5 tag = take 5 s"
    using l unfolding t by simp
  moreover have "is_head_prefix x = is_head_prefix (take 5 x)" for x
    by (auto simp: is_head_prefix_def split: list.splits)
  ultimately have hp: "is_head_prefix tag"
    using h by metis
  have "drop 5 tag = takeWhile ?P (drop 5 s) @ [gt]"
    using l unfolding t by simp
  then have "butlast (drop 5 tag) = takeWhile ?P (drop 5 s)"
    by simp
  then have "CHR ''>'' \<notin> set (butlast (drop 5 tag))"
    by (auto dest: set_takeWhileD)
  with s hp gt t show ?thesis by simp
qed

lemma find_head_SomeD:
  "find_head html = Some (pre, tag, post) \<Longrightarrow>
     html = pre @ tag @ post \<and> match_head (tag @ post) = Some (tag, post)"
proof (induction html arbitrary: pre)
  case Nil
  then show ?case by simp
next
  case (Cons c cs)
  show ?case
  proof (cases "match_head (c # cs)")
    case (Some m)
    with Cons.prems have m: "m = (tag, post)" and p: "pre = []"
      by (auto split: prod.splits)
    from match_head_SomeD [OF Some [unfolded m]] Some m p show ?thesis by simp
  next
    case None
    with Cons.prems obtain pre' where f: "find_head cs = Some (pre', tag, post)" and p: "pre = c # pre'"
      by (auto split: option.splits)
    from Cons.IH [OF f] p show ?thesis by simp
  qed
qed

lemma find_head_first:
  "find_head html = Some (pre, tag, post) \<Longrightarrow> i < length pre \<Longrightarrow> match_head (drop i html) = None"
proof (induction html arbitrary: pre i)
  case Nil
  then show ?case by simp
next
  case (Cons c cs)
  show ?case
  proof (cases "match_head (c # cs)")
    case (Some m)
    with Cons.prems show ?thesis by (auto split: prod.splits)
  next
    case None
    with Cons.prems obtain pre' where f: "find_head cs = Some (pre', tag, post)" and p: "pre = c # pre'"
      by (auto split: option.splits)
    show ?thesis
    proof (cases i)
      case 0
      with None show ?thesis by simp
    next
      case (Suc k)
      with Cons.IH [OF f, of k] Cons.prems(2) p show ?thesis by simp
    qed
  qed
qed

lemma head_sides_append: "fst (head_sides html) @ snd (head_sides html) = html"
  by (auto simp: head_sides_def dest: find_head_SomeD split: option.splits)

lemma replace_head_sides:
  "replace_head html (head_template port ip)
     = fst (head_sides html) @ inserted html port ip @ snd (head_sides html)"
  by (auto simp: replace_head_def head_sides_def inserted_def head_template_def
      get_substitution_dollar1 [simplified] split: option.splits)

lemma inserted_plain:
  "find_head html = Some (pre, tag, post) \<Longrightarrow> \<not> has_replacement_pattern (injected port ip)
     \<Longrightarrow> inserted html port ip = injected port ip"
  by (simp add: inserted_def get_substitution_plain)

lemma injectDevClient_eq:
  assumes "window_href api = Some href" and "getManifestId api cfg w = (m, w1)"
    and "manifest_param m = Inr ip"
  shows "injectDevClient api cfg html port w
     = (Inr (rewrite_urls port (fst (head_sides html) @ inserted html port ip @ snd (head_sides html))), w1)"
  using assms by (simp add: injectDevClient_def replace_head_sides)

lemma last_snoc_lit: "last (xs @ y # ys) = last (y # ys)"
  by simp

lemma injected_last: "injected port ip \<noteq> [] \<and> last (injected port ip) = CHR ''>''"
proof -
  have "injected port ip \<noteq> []"
    unfolding injected_def by (simp only: append.simps list.distinct not_False_eq_True)
  moreover have "last (injected port ip) = CHR ''>''"
    unfolding injected_def client_script_def append_assoc [symmetric]
    by (simp only: last_snoc_lit) simp
  ultimately show ?thesis by blast
qed

lemma injected_hd: "hd (injected port ip) = nl"
  by (simp add: injected_def)

lemma injected_tail:
  \<open>\<exists>xs. injected port ip = xs @ dq # ''></script>''\<close>
proof -
  have \<open>''/@vite/client" onerror="showViteError()"></script>''
      = ''/@vite/client" onerror="showViteError()'' @ dq # ''></script>''\<close>
    by (simp add: dq_def)
  then show ?thesis
    unfolding injected_def client_script_def by (metis append_assoc)
qed

lemma open_url_D:
  assumes "open_url t"
  shows "\<exists>attr q r. t = attr @ CHR ''='' # q # CHR ''/'' # r \<and> is_quote q
    \<and> (attr = ''src'' \<or> attr = ''href'') \<and> list_all (\<lambda>c. \<not> is_quote c) r"
proof -
  from assms obtain attr r where a: "match_attr_name t = Some (attr, r)"
    by (auto simp: open_url_def split: option.splits)
  with assms obtain q r2 where "r = CHR ''='' # q # CHR ''/'' # r2" and "is_quote q"
    and "list_all (\<lambda>c. \<not> is_quote c) r2"
    by (auto simp: open_url_def split: list.splits)
  with match_attr_name_SomeD [OF a] show ?thesis by blast
qed

lemma open_url_snoc:
  assumes "open_url t" and "\<not> is_quote c"
  shows "open_url (t @ [c])"
proof -
  from assms(1) obtain attr r where a: "match_attr_name t = Some (attr, r)"
    by (auto simp: open_url_def split: option.splits)
  with assms(1) obtain q r2 where r: "r = CHR ''='' # q # CHR ''/'' # r2" and q: "is_quote q"
    and l: "list_all (\<lambda>c. \<not> is_quote c) r2"
    by (auto simp: open_url_def split: list.splits)
  from match_attr_name_SomeD [OF a] have t: "t = attr @ r" and at: "attr = ''src'' \<or> attr = ''href''"
    by simp_all
  have "open_url (attr @ CHR ''='' # q # CHR ''/'' # (r2 @ [c]))"
    using at q l assms(2) by (intro open_url_literal) simp_all
  then show ?thesis
    unfolding t r by simp
qed

text \<open>A quote inside an open beginning of a match is its opening quote: a slash follows it.\<close>

lemma open_url_quote:
  assumes "open_url (t @ q # ys)" and "is_quote q"
  shows "\<exists>r. ys = CHR ''/'' # r"
proof -
  from assms(1) obtain attr r where a: "match_attr_name (t @ q # ys) = Some (attr, r)"
    by (auto simp: open_url_def split: option.splits)
  with assms(1) obtain q0 r2 where r: "r = CHR ''='' # q0 # CHR ''/'' # r2" and q0: "is_quote q0"
    and l: "list_all (\<lambda>c. \<not> is_quote c) r2"
    by (auto simp: open_url_def split: list.splits)
  from match_attr_name_SomeD [OF a] have e: "t @ q # ys = (attr @ ''='') @ (q0 # CHR ''/'' # r2)"
    and at: "attr = ''src'' \<or> attr = ''href''"
    unfolding r by simp_all
  have na: "\<not> is_quote c" if "c \<in> set (attr @ ''='')" for c
    using that at by (auto simp: is_quote_def dq_def sq_def)
  have nr: "\<not> is_quote c" if "c \<in> set (CHR ''/'' # r2)" for c
    using that l by (auto simp: list_all_iff is_quote_def dq_def sq_def)
  from e obtain us where
    "(t = (attr @ ''='') @ us \<and> us @ q # ys = q0 # CHR ''/'' # r2)
     \<or> (t @ us = attr @ ''='' \<and> q # ys = us @ q0 # CHR ''/'' # r2)"
    unfolding append_eq_append_conv2 by blast
  then show ?thesis
  proof
    assume h: "t = (attr @ ''='') @ us \<and> us @ q # ys = q0 # CHR ''/'' # r2"
    show ?thesis
    proof (cases us)
      case Nil
      with h show ?thesis by simp
    next
      case (Cons u us')
      with h have "us' @ q # ys = CHR ''/'' # r2"
        by simp
      then have "q \<in> set (CHR ''/'' # r2)"
        by (metis in_set_conv_decomp)
      with nr assms(2) show ?thesis by blast
    qed
  next
    assume h: "t @ us = attr @ ''='' \<and> q # ys = us @ q0 # CHR ''/'' # r2"
    show ?thesis
    proof (cases us)
      case Nil
      with h show ?thesis by simp
    next
      case (Cons u us')
      with h have "u = q" and "t @ q # us' = attr @ ''=''"
        by simp_all
      then have "q \<in> set (attr @ ''='')"
        by (metis in_set_conv_decomp)
      with na assms(2) show ?thesis by blast
    qed
  qed
qed

lemma injected_not_dangling: "\<not> dangling (injected port ip)"
proof
  assume "dangling (injected port ip)"
  from dangling_open_suffix [OF this] obtain t where s: "suffix t (injected port ip)" and o: "open_url t"
    by blast
  from injected_tail obtain xs where x: "injected port ip = xs @ dq # ''></script>''"
    by blast
  have n: "\<not> open_url u" if "suffix u (dq # ''></script>'')" for u
  proof -
    from that have "u \<in> set (suffixes (dq # ''></script>''))"
      by (simp only: in_set_suffixes)
    then show ?thesis
      by (auto simp: open_url_def match_attr_name_def dq_def)
  qed
  from s [unfolded x suffix_append] show False
  proof
    assume "suffix t (dq # ''></script>'')"
    with n o show False by blast
  next
    assume "\<exists>t'. t = t' @ dq # ''></script>'' \<and> suffix t' xs"
    then obtain t' where "t = t' @ dq # ''></script>''"
      by blast
    with open_url_quote [of t' dq "''></script>''"] o show False
      by (simp add: is_quote_def)
  qed
qed

lemma match_url_snoc_None:
  assumes "match_url X = None" and "\<not> is_quote c"
  shows "match_url (X @ [c]) = None"
proof (cases "match_url (X @ [c])")
  case None
  then show ?thesis .
next
  case (Some m)
  obtain attr urlPath post where m: "m = (attr, urlPath, post)"
    by (cases m)
  from match_url_SomeD [OF Some [unfolded m]]
  obtain q q2 where e: "X @ [c] = (attr @ CHR ''='' # q # CHR ''/'' # urlPath @ [q2]) @ post"
    and a: "attr = ''src'' \<or> attr = ''href''" and q: "is_quote q" and q2: "is_quote q2"
    and u: "urlPath \<noteq> []" and l: "list_all (\<lambda>c. \<not> is_quote c) urlPath"
    by auto
  show ?thesis
  proof (cases post rule: rev_cases)
    case Nil
    with e have "X @ [c] = (attr @ CHR ''='' # q # CHR ''/'' # urlPath) @ [q2]"
      by simp
    from this [unfolded append1_eq_conv] have "c = q2"
      by simp
    with assms(2) q2 show ?thesis by simp
  next
    case (snoc post' z)
    with e have "X @ [c] = ((attr @ CHR ''='' # q # CHR ''/'' # urlPath @ [q2]) @ post') @ [z]"
      by simp
    from this [unfolded append1_eq_conv]
    have "X = (attr @ CHR ''='' # q # CHR ''/'' # urlPath @ [q2]) @ post'"
      by simp
    with match_url_literal [OF a q q2 u l, of post'] assms(1) show ?thesis by simp
  qed
qed

lemma dangling_snoc:
  "dangling A \<Longrightarrow> \<not> is_quote c \<Longrightarrow> dangling (A @ [c])"
proof (induction A rule: dangling.induct)
  case 1
  then show ?case by simp
next
  case (2 d ds)
  show ?case
  proof (cases "match_url (d # ds)")
    case None
    from match_url_snoc_None [OF None 2(4)] have n: "match_url (d # (ds @ [c])) = None"
      by simp
    from 2(3) None have "open_url (d # ds) \<or> dangling ds"
      by (simp add: dangling_no_match)
    then have "open_url (d # (ds @ [c])) \<or> dangling (ds @ [c])"
      using open_url_snoc [of "d # ds" c] 2(1) [OF None] 2(4) by auto
    with n show ?thesis by (simp add: dangling_no_match)
  next
    case (Some m)
    obtain attr urlPath post where m: "m = (attr, urlPath, post)"
      by (cases m)
    from match_url_SomeD [OF Some [unfolded m]]
    obtain q q2 where s: "d # ds = (attr @ ''='' @ [q] @ ''/'' @ urlPath @ [q2]) @ post"
      and a: "attr = ''src'' \<or> attr = ''href''" and q: "is_quote q" and q2: "is_quote q2"
      and u: "urlPath \<noteq> []" and l: "list_all (\<lambda>c. \<not> is_quote c) urlPath"
      by auto
    have my: "match_url ((d # ds) @ [c]) = Some (attr, urlPath, post @ [c])"
      unfolding s using match_url_literal [OF a q q2 u l, of "post @ [c]"] by simp
    from 2(3) Some m have "dangling post"
      by (simp add: dangling_match)
    from 2(2) [OF Some [unfolded m] refl refl this 2(4)] have "dangling (post @ [c])" .
    with dangling_match [OF my] show ?thesis by simp
  qed
qed

lemma rewrite_urls_closing:
  assumes "\<not> dangling X" and "X \<noteq> []" and "last X = CHR ''>''"
  shows "rewrite_urls port X = rewrite_urls port (butlast X) @ ''>''"
proof -
  from assms(2,3) have x: "X = butlast X @ ''>''"
    using append_butlast_last_id [of X] by simp
  have q: "\<not> is_quote (CHR ''>'')"
    by (simp add: is_quote_def dq_def sq_def)
  have d: "\<not> dangling (butlast X)"
    using dangling_snoc [OF _ q, of "butlast X"] assms(1) x by auto
  have p: "\<not> pattern_pair (last (butlast X)) (hd ''>'')"
    by (simp add: pattern_pair_def is_quote_def dq_def sq_def)
  have m: "match_url ''>'' = None"
    by (simp add: match_url_def match_attr_name_def)
  have "rewrite_urls port (butlast X @ ''>'') = rewrite_urls port (butlast X) @ rewrite_urls port ''>''"
    using rewrite_urls_append [OF d, of "''>''" port] p by blast
  with m x show ?thesis by (simp add: rewrite_urls.simps)
qed

text \<open>
  The inserted script, unchanged by the second replacement on its own, is unchanged by it
  with any text behind it.
\<close>

lemma rewrite_urls_injected:
  assumes "rewrite_urls port (injected port ip) = injected port ip"
  shows "rewrite_urls port (injected port ip @ Y) = injected port ip @ rewrite_urls port Y"
proof -
  have "\<not> pattern_pair (last (injected port ip)) (hd Y)"
    using injected_last [of port ip] by (simp add: pattern_pair_def is_quote_def dq_def sq_def)
  with rewrite_urls_append [OF injected_not_dangling, of port ip Y port] assms
  show ?thesis by simp
qed

lemma injectDevClient_head_eq:
  assumes "window_href api = Some href"
    and "find_head html = Some (pre, tag, post)"
    and "getManifestId api cfg w = (m, w1)"
    and "manifest_param m = Inr ip"
    and "\<not> has_replacement_pattern (injected port ip)"
    and "rewrite_urls port (injected port ip) = injected port ip"
    and "\<not> dangling (pre @ tag)"
  shows "injectDevClient api cfg html port w =
        (Inr (rewrite_urls port (pre @ tag) @ injected port ip @ rewrite_urls port post), w1)"
proof -
  have c: "\<not> pattern_pair (last (pre @ tag)) (hd (injected port ip @ post))"
    using injected_last [of port ip] injected_hd [of port ip]
    by (simp add: hd_append pattern_pair_def nl_def is_quote_def dq_def sq_def)
  have "rewrite_urls port ((pre @ tag) @ injected port ip @ post)
      = rewrite_urls port (pre @ tag) @ rewrite_urls port (injected port ip @ post)"
    using rewrite_urls_append [OF assms(7), of "injected port ip @ post" port] c by simp
  also have "\<dots> = rewrite_urls port (pre @ tag) @ injected port ip @ rewrite_urls port post"
    by (simp add: rewrite_urls_injected [OF assms(6)])
  finally show ?thesis
    using injectDevClient_eq [OF assms(1,3,4), of html port] inserted_plain [OF assms(2,5)] assms(2)
    by (simp add: head_sides_def)
qed

lemma quote_free_no_quote_slash:
  "list_all (\<lambda>c. \<not> is_quote c) s \<Longrightarrow> no_quote_slash s"
  by (induction s rule: no_quote_slash.induct) auto

lemma quote_free_last: "list_all (\<lambda>c. \<not> is_quote c) s \<Longrightarrow> s \<noteq> [] \<Longrightarrow> \<not> is_quote (last s)"
  by (simp add: list_all_iff)

lemma no_dollar_plain: "CHR ''$'' \<notin> set t \<Longrightarrow> \<not> has_replacement_pattern t"
  by (induction t rule: has_replacement_pattern.induct) auto

text \<open>
  For a port and an identity part without quotes and dollar signs, the script holds no
  replacement pattern, and the second replacement leaves it as it is.
\<close>

lemma injected_no_dollar:
  assumes "CHR ''$'' \<notin> set (number_text port)" and "CHR ''$'' \<notin> set ip"
  shows "\<not> has_replacement_pattern (injected port ip)"
proof -
  have "CHR ''$'' \<notin> set (injected port ip)"
    using assms by (simp add: injected_def client_script_def nl_def sq_def)
  then show ?thesis by (rule no_dollar_plain)
qed

lemma injected_no_quote_slash:
  assumes "list_all (\<lambda>c. \<not> is_quote c) (number_text port)" and "number_text port \<noteq> []"
    and "hd (number_text port) \<noteq> CHR ''/''"
    and "list_all (\<lambda>c. \<not> is_quote c) ip" and "ip = [] \<or> hd ip \<noteq> CHR ''/''"
  shows "no_quote_slash (injected port ip)"
proof -
  let ?P = "number_text port"
  have p: "?P \<noteq> []" "no_quote_slash ?P" "hd ?P \<noteq> CHR ''/''" "\<not> is_quote (last ?P)"
    using assms(1,2,3) quote_free_no_quote_slash [of ?P] quote_free_last [of ?P] by simp_all
  have i: "no_quote_slash ip \<and> (ip = [] \<or> (\<not> is_quote (last ip) \<and> hd ip \<noteq> CHR ''/''))"
    using assms(4,5) quote_free_no_quote_slash [of ip] quote_free_last [of ip] by auto
  show ?thesis
    unfolding injected_def client_script_def
    using p i
    by (simp add: no_quote_slash_append no_quote_slash_Cons is_quote_def dq_def sq_def nl_def hd_append
        del: no_quote_slash.simps(3))
qed

lemma injected_unchanged:
  assumes "list_all (\<lambda>c. \<not> is_quote c) (number_text port)" and "number_text port \<noteq> []"
    and "hd (number_text port) \<noteq> CHR ''/''"
    and "list_all (\<lambda>c. \<not> is_quote c) ip" and "ip = [] \<or> hd ip \<noteq> CHR ''/''"
  shows "rewrite_urls port (injected port ip) = injected port ip"
  using injected_no_quote_slash [OF assms] by (rule no_quote_slash_rewrite_urls)

lemma suffix_snoc_last: "suffix u (xs @ [z]) \<Longrightarrow> u \<noteq> [] \<Longrightarrow> last u = z"
proof -
  assume "suffix u (xs @ [z])" and n: "u \<noteq> []"
  then obtain zs where "xs @ [z] = zs @ u"
    by (auto simp: suffix_def)
  then have "last (xs @ [z]) = last (zs @ u)"
    by simp
  with n show ?thesis by simp
qed

lemma dangling_append_gen:
  assumes "\<not> dangling X"
    and "\<And>u vs attr q. suffix u X \<Longrightarrow> u \<noteq> [] \<Longrightarrow> vs \<noteq> [] \<Longrightarrow> prefix vs Y \<Longrightarrow> attr = ''src'' \<or> attr = ''href''
        \<Longrightarrow> is_quote q \<Longrightarrow> u @ vs \<noteq> attr @ [CHR ''='', q, CHR ''/'']"
  shows "dangling (X @ Y) = dangling Y"
  using assms
proof (induction X rule: dangling.induct)
  case 1
  then show ?case by simp
next
  case (2 c cs)
  note seam = 2(4)
  show ?case
  proof (cases "match_url (c # cs)")
    case None
    from 2(3) None have o: "\<not> open_url (c # cs)" and d: "\<not> dangling cs"
      by (simp_all add: dangling_no_match)
    have n: "match_url ((c # cs) @ Y) = None"
      by (rule match_url_append_None [OF None o]) (use seam [of "c # cs"] in auto)
    have no: "\<not> open_url ((c # cs) @ Y)"
    proof
      assume op: "open_url ((c # cs) @ Y)"
      from open_url_D [OF op] obtain attr q r where e: "(c # cs) @ Y = (attr @ [CHR ''='', q, CHR ''/'']) @ r"
        and q: "is_quote q" and a: "attr = ''src'' \<or> attr = ''href''"
        and lr: "list_all (\<lambda>c. \<not> is_quote c) r"
        by auto
      from e obtain vs where
        "(c # cs = (attr @ [CHR ''='', q, CHR ''/'']) @ vs \<and> vs @ Y = r)
         \<or> ((c # cs) @ vs = attr @ [CHR ''='', q, CHR ''/''] \<and> Y = vs @ r)"
        unfolding append_eq_append_conv2 by blast
      then consider
          (inside) vs' where "c # cs = (attr @ [CHR ''='', q, CHR ''/'']) @ vs'" "vs' @ Y = r"
        | (fixed) "(c # cs) @ vs = attr @ [CHR ''='', q, CHR ''/'']" "Y = vs @ r" "vs \<noteq> []"
        by (cases "vs = []") auto
      then show False
      proof cases
        case inside
        from lr inside(2) have "list_all (\<lambda>c. \<not> is_quote c) vs'"
          by auto
        from open_url_literal [OF a q this] o show False
          unfolding inside(1) by simp
      next
        case fixed
        from fixed(2) have "prefix vs Y"
          by simp
        from seam [OF suffix_order.refl _ fixed(3) this a q] fixed(1) show False
          by simp
      qed
    qed
    have "dangling (cs @ Y) = dangling Y"
    proof (rule 2(1) [OF None d])
      fix u vs attr q
      assume "suffix u cs" "u \<noteq> []" "vs \<noteq> []" "prefix vs Y" "attr = ''src'' \<or> attr = ''href''" "is_quote q"
      moreover from \<open>suffix u cs\<close> have "suffix u (c # cs)"
        by (rule suffix_ConsI)
      ultimately show "u @ vs \<noteq> attr @ [CHR ''='', q, CHR ''/'']"
        using seam by blast
    qed
    with n no show ?thesis
      using dangling_no_match [of c "cs @ Y"] by simp
  next
    case (Some m)
    obtain attr urlPath post where m: "m = (attr, urlPath, post)"
      by (cases m)
    from match_url_SomeD [OF Some [unfolded m]]
    obtain q q2 where s: "c # cs = (attr @ ''='' @ [q] @ ''/'' @ urlPath @ [q2]) @ post"
      and a: "attr = ''src'' \<or> attr = ''href''" and q: "is_quote q" and q2: "is_quote q2"
      and u: "urlPath \<noteq> []" and l: "list_all (\<lambda>c. \<not> is_quote c) urlPath"
      by auto
    have my: "match_url ((c # cs) @ Y) = Some (attr, urlPath, post @ Y)"
      unfolding s using match_url_literal [OF a q q2 u l, of "post @ Y"] by simp
    from 2(3) Some m have d: "\<not> dangling post"
      by (simp add: dangling_match)
    have "dangling (post @ Y) = dangling Y"
    proof (rule 2(2) [OF Some [unfolded m] refl refl d])
      fix u vs attr' q'
      assume "suffix u post" "u \<noteq> []" "vs \<noteq> []" "prefix vs Y" "attr' = ''src'' \<or> attr' = ''href''" "is_quote q'"
      moreover from \<open>suffix u post\<close> have "suffix u (c # cs)"
        unfolding s by (rule suffix_appendI)
      ultimately show "u @ vs \<noteq> attr' @ [CHR ''='', q', CHR ''/'']"
        using seam by blast
    qed
    with dangling_match [OF my] show ?thesis by simp
  qed
qed

lemma dangling_append:
  assumes "\<not> dangling X" and "X = [] \<or> Y = [] \<or> \<not> pattern_pair (last X) (hd Y)"
  shows "dangling (X @ Y) = dangling Y"
proof (rule dangling_append_gen [OF assms(1)])
  fix u vs attr q
  assume h: "suffix u X" "u \<noteq> []" "vs \<noteq> []" "prefix vs Y" "attr = ''src'' \<or> attr = ''href''" "is_quote q"
  show "u @ vs \<noteq> attr @ [CHR ''='', q, CHR ''/'']"
  proof
    assume "u @ vs = attr @ [CHR ''='', q, CHR ''/'']"
    from seam_chars [OF h(5) this h(2,3,6)] have "pattern_pair (last u) (hd vs)" .
    moreover from h(1,2) have "X \<noteq> []" and "last u = last X"
      by (auto simp: suffix_def)
    moreover from h(3,4) have "Y \<noteq> []" and "hd vs = hd Y"
      by (auto simp: prefix_def)
    ultimately show False using assms(2) by simp
  qed
qed

lemma no_quote_slash_not_dangling:
  assumes "no_quote_slash s"
  shows "\<not> dangling s"
proof
  assume "dangling s"
  from dangling_open_suffix [OF this] obtain t where t: "suffix t s" and o: "open_url t"
    by blast
  from open_url_D [OF o] obtain attr q r where e: "t = (attr @ ''='') @ (q # CHR ''/'' # r)" and q: "is_quote q"
    by auto
  from t obtain p where "s = (p @ attr @ ''='') @ (q # CHR ''/'' # r)"
    unfolding e suffix_def by auto
  moreover have "\<not> no_quote_slash (q # CHR ''/'' # r)"
    using q by simp
  ultimately have "\<not> no_quote_slash s"
    using no_quote_slash_append by metis
  with assms show False by simp
qed

lemma pattern_pair_attr_start:
  "attr = ''src'' \<or> attr = ''href'' \<Longrightarrow> \<not> pattern_pair a (hd (attr @ r))"
  by (auto simp: pattern_pair_def is_quote_def dq_def sq_def)

lemma no_quote_slash_attribute:
  assumes "attr = ''src'' \<or> attr = ''href''" and "list_all (\<lambda>c. \<not> is_quote c) v"
    and "\<not> prefix ''/'' v" and "is_quote q2"
  shows "no_quote_slash (attr @ ''='' @ [q1] @ v @ [q2])"
proof -
  have v: "no_quote_slash v" and l: "v \<noteq> [] \<Longrightarrow> \<not> is_quote (last v)"
    using assms(2) by (induction v rule: no_quote_slash.induct) auto
  from assms(3) have h: "v = [] \<or> hd v \<noteq> CHR ''/''"
    by (cases v) auto
  have "no_quote_slash (attr @ ''='')"
    using assms(1) by (auto simp: is_quote_def dq_def sq_def)
  moreover have "no_quote_slash (q1 # v @ [q2])"
    using v l h assms(4)
    by (cases "v = []")
      (auto simp: no_quote_slash_Cons no_quote_slash_append is_quote_def dq_def sq_def
        simp del: no_quote_slash.simps(3))
  moreover have "\<not> is_quote (last (attr @ ''=''))"
    by (simp add: is_quote_def dq_def sq_def)
  ultimately show ?thesis
    using no_quote_slash_append [of "attr @ ''=''" "q1 # v @ [q2]"] by simp
qed

text \<open>
  An occurrence of the pattern that the scan reaches is replaced, and the scan goes on
  behind it.
\<close>

lemma rewrite_urls_occurrence:
  assumes "attr = ''src'' \<or> attr = ''href''" and "is_quote q1" and "is_quote q2"
    and "list_all (\<lambda>c. \<not> is_quote c) v" and "v \<noteq> []" and "\<not> dangling pre"
  shows "rewrite_urls port (pre @ attr @ ''='' @ [q1] @ ''/'' @ v @ [q2] @ rest)
    = rewrite_urls port pre @ attr @ ''='' @ [dq] @ ''http://localhost:'' @ number_text port
        @ ''/'' @ v @ [dq] @ rewrite_urls port rest"
proof -
  have "rewrite_urls port (pre @ attr @ r) = rewrite_urls port pre @ rewrite_urls port (attr @ r)" for r
    using rewrite_urls_append [OF assms(6), of "attr @ r" port] pattern_pair_attr_start [OF assms(1)]
    by blast
  from this [of "''='' @ [q1] @ ''/'' @ v @ [q2] @ rest"]
    rewrite_urls_match [OF match_url_literal [OF assms(1,2,3,5,4)], of port rest]
  show ?thesis by simp
qed

text \<open>
  An attribute whose value does not begin with a slash is copied, unless its value ends
  in \<^verbatim>\<open>src=\<close> or \<^verbatim>\<open>href=\<close> and a slash follows its closing quote.
\<close>

lemma rewrite_urls_keeps:
  assumes "attr = ''src'' \<or> attr = ''href''" and "is_quote q1" and "is_quote q2"
    and "list_all (\<lambda>c. \<not> is_quote c) v" and "\<not> prefix ''/'' v" and "\<not> dangling pre"
    and "\<not> ((suffix ''src='' v \<or> suffix ''href='' v) \<and> prefix ''/'' rest)"
  shows "rewrite_urls port (pre @ attr @ ''='' @ [q1] @ v @ [q2] @ rest)
    = rewrite_urls port pre @ attr @ ''='' @ [q1] @ v @ [q2] @ rewrite_urls port rest"
proof -
  let ?A = "attr @ ''='' @ [q1] @ v @ [q2]"
  note n = no_quote_slash_attribute [OF assms(1,4,5,3), of q1]
  have seam: "u @ vs \<noteq> attr' @ [CHR ''='', q', CHR ''/'']"
    if h: "suffix u ?A" "u \<noteq> []" "vs \<noteq> []" "prefix vs rest" "attr' = ''src'' \<or> attr' = ''href''" "is_quote q'"
    for u vs attr' q'
  proof
    assume e: "u @ vs = attr' @ [CHR ''='', q', CHR ''/'']"
    from h(1,2) have lu: "last u = q2"
      using suffix_snoc_last [of u "attr @ ''='' @ [q1] @ v" q2] by simp
    from seam_chars [OF h(5) e h(2,3,6)] have "pattern_pair (last u) (hd vs)" .
    with lu assms(3) have hv: "hd vs = CHR ''/''"
      by (auto simp: pattern_pair_def is_quote_def dq_def sq_def)
    with h(3) obtain vs' where vs: "vs = CHR ''/'' # vs'"
      by (cases vs) auto
    with h(4) have pr: "prefix ''/'' rest"
      by (auto simp: prefix_def)
    have nsl: "CHR ''/'' \<notin> set (attr' @ [CHR ''='', q'])"
      using h(5,6) by (auto simp: is_quote_def dq_def sq_def)
    have "vs' = []"
    proof (rule ccontr)
      assume "vs' \<noteq> []"
      then obtain ws z where "vs' = ws @ [z]"
        by (cases vs' rule: rev_cases) auto
      with e vs have "(u @ CHR ''/'' # ws) @ [z] = (attr' @ [CHR ''='', q']) @ [CHR ''/'']"
        by simp
      from this [unfolded append1_eq_conv] have "u @ CHR ''/'' # ws = attr' @ [CHR ''='', q']"
        by simp
      then have "CHR ''/'' \<in> set (attr' @ [CHR ''='', q'])"
        by (metis in_set_conv_decomp)
      with nsl show False by simp
    qed
    with e vs have "u @ [CHR ''/''] = (attr' @ [CHR ''='', q']) @ [CHR ''/'']"
      by simp
    from this [unfolded append1_eq_conv] have u: "u = (attr' @ ''='') @ [q']"
      by simp
    from h(1) have "suffix ((attr' @ ''='') @ [q']) ((attr @ ''='' @ [q1] @ v) @ [q2])"
      unfolding u by simp
    from this [unfolded suffix_snoc] have "suffix (attr' @ ''='') ((attr @ ''='' @ [q1]) @ v)"
      by auto
    then have "suffix (attr' @ ''='') v
        \<or> (\<exists>xs'. attr' @ ''='' = xs' @ v \<and> suffix xs' (attr @ ''='' @ [q1]))"
      using suffix_append [of "attr' @ ''=''" "attr @ ''='' @ [q1]" v] by blast
    then have "suffix (attr' @ ''='') v"
    proof
      assume "suffix (attr' @ ''='') v"
      then show ?thesis .
    next
      assume "\<exists>xs'. attr' @ ''='' = xs' @ v \<and> suffix xs' (attr @ ''='' @ [q1])"
      then obtain xs' where x: "attr' @ ''='' = xs' @ v" and s: "suffix xs' ((attr @ ''='') @ [q1])"
        by auto
      show ?thesis
      proof (cases "xs' = []")
        case True
        with x show ?thesis by simp
      next
        case False
        from suffix_snoc_last [OF s False] have "last xs' = q1" .
        with False have "q1 \<in> set xs'"
          using last_in_set by blast
        then have "q1 \<in> set (attr' @ ''='')"
          unfolding x by simp
        with assms(2) h(5) show ?thesis
          by (auto simp: is_quote_def dq_def sq_def)
      qed
    qed
    with h(5) have "suffix ''src='' v \<or> suffix ''href='' v"
      by auto
    with pr assms(7) show False by blast
  qed
  have "rewrite_urls port (?A @ rest) = rewrite_urls port ?A @ rewrite_urls port rest"
    by (rule rewrite_urls_append_gen [OF no_quote_slash_not_dangling [OF n]]) (rule seam)
  then have k: "rewrite_urls port (?A @ rest) = ?A @ rewrite_urls port rest"
    using no_quote_slash_rewrite_urls [OF n, of port] by simp
  have "rewrite_urls port (pre @ attr @ r) = rewrite_urls port pre @ rewrite_urls port (attr @ r)" for r
    using rewrite_urls_append [OF assms(6), of "attr @ r" port] pattern_pair_attr_start [OF assms(1)]
    by blast
  from this [of "''='' @ [q1] @ v @ [q2] @ rest"] k show ?thesis by simp
qed

section \<open>The second replacement: root-relative URLs\<close>

text \<open>
  Claim C3, as the code has it. Let the runtime declare \<^verbatim>\<open>window\<close> and the conversion of
  the manifest identity to a string succeed, so that the transform returns. The first
  replacement inserts the script \<open>ins\<close> between the two sides \<open>front\<close> and \<open>back\<close> of the
  input; take an occurrence that lies on one side: \<^verbatim>\<open>src=\<close> or \<^verbatim>\<open>href=\<close>, a quote of either
  kind, a value without quotes, and a quote of either kind.

  \<^item> When the value is a slash and a non-empty rest \<open>v\<close>, and the scan of the text in front
    of the occurrence leaves no attribute value unclosed, the output has
    \<^verbatim>\<open>attr="http://localhost:<port>/v"\<close> in its place, between the rewritten text in front
    and the rewritten text behind: the attribute name is kept, and the value is put in
    double quotes whatever the quotes of the input were.
  \<^item> When the value does not begin with a slash, under the same condition on the text in
    front, the occurrence is copied as it is, unless the value ends in \<^verbatim>\<open>src=\<close> or
    \<^verbatim>\<open>href=\<close> and a slash follows the closing quote.
\<close>

theorem injectDevClient_rewrites_attribute:
  assumes "window_href api = Some href"
    and "manifest_param (fst (getManifestId api cfg w)) = Inr ip"
    and "attr = ''src'' \<or> attr = ''href''" and "is_quote q1" and "is_quote q2"
    and "list_all (\<lambda>c. \<not> is_quote c) v"
    and "front = fst (head_sides html)" and "ins = inserted html port ip" and "back = snd (head_sides html)"
  shows "html = front @ back
    \<and> (v \<noteq> [] \<and> front = pre @ attr @ ''='' @ [q1] @ ''/'' @ v @ [q2] @ post \<and> \<not> dangling pre \<longrightarrow>
          fst (injectDevClient api cfg html port w)
            = Inr (rewrite_urls port pre
                   @ attr @ ''='' @ [dq] @ ''http://localhost:'' @ number_text port @ ''/'' @ v @ [dq]
                   @ rewrite_urls port (post @ ins @ back)))
    \<and> (v \<noteq> [] \<and> back = pre @ attr @ ''='' @ [q1] @ ''/'' @ v @ [q2] @ post
          \<and> \<not> dangling (front @ ins @ pre) \<longrightarrow>
          fst (injectDevClient api cfg html port w)
            = Inr (rewrite_urls port (front @ ins @ pre)
                   @ attr @ ''='' @ [dq] @ ''http://localhost:'' @ number_text port @ ''/'' @ v @ [dq]
                   @ rewrite_urls port post))
    \<and> (\<not> prefix ''/'' v \<and> front = pre @ attr @ ''='' @ [q1] @ v @ [q2] @ post \<and> \<not> dangling pre
          \<and> \<not> ((suffix ''src='' v \<or> suffix ''href='' v) \<and> prefix ''/'' (post @ ins @ back)) \<longrightarrow>
          fst (injectDevClient api cfg html port w)
            = Inr (rewrite_urls port pre @ attr @ ''='' @ [q1] @ v @ [q2]
                   @ rewrite_urls port (post @ ins @ back)))
    \<and> (\<not> prefix ''/'' v \<and> back = pre @ attr @ ''='' @ [q1] @ v @ [q2] @ post
          \<and> \<not> dangling (front @ ins @ pre)
          \<and> \<not> ((suffix ''src='' v \<or> suffix ''href='' v) \<and> prefix ''/'' post) \<longrightarrow>
          fst (injectDevClient api cfg html port w)
            = Inr (rewrite_urls port (front @ ins @ pre) @ attr @ ''='' @ [q1] @ v @ [q2]
                   @ rewrite_urls port post))"
proof -
  have g: "getManifestId api cfg w = (fst (getManifestId api cfg w), snd (getManifestId api cfg w))"
    by simp
  have e: "fst (injectDevClient api cfg html port w) = Inr (rewrite_urls port (front @ ins @ back))"
    using injectDevClient_eq [OF assms(1) g assms(2), of html port] assms(7,8,9) by simp
  have c0: "html = front @ back"
    using head_sides_append [of html] assms(7,9) by simp
  have c1: "v \<noteq> [] \<and> front = pre @ attr @ ''='' @ [q1] @ ''/'' @ v @ [q2] @ post \<and> \<not> dangling pre \<longrightarrow>
          fst (injectDevClient api cfg html port w)
            = Inr (rewrite_urls port pre
                   @ attr @ ''='' @ [dq] @ ''http://localhost:'' @ number_text port @ ''/'' @ v @ [dq]
                   @ rewrite_urls port (post @ ins @ back))"
    using rewrite_urls_occurrence [OF assms(3,4,5,6), of pre port "post @ ins @ back"] e by simp
  have c2: "v \<noteq> [] \<and> back = pre @ attr @ ''='' @ [q1] @ ''/'' @ v @ [q2] @ post
          \<and> \<not> dangling (front @ ins @ pre) \<longrightarrow>
          fst (injectDevClient api cfg html port w)
            = Inr (rewrite_urls port (front @ ins @ pre)
                   @ attr @ ''='' @ [dq] @ ''http://localhost:'' @ number_text port @ ''/'' @ v @ [dq]
                   @ rewrite_urls port post)"
    using rewrite_urls_occurrence [OF assms(3,4,5,6), of "front @ ins @ pre" port post] e by simp
  have c3: "\<not> prefix ''/'' v \<and> front = pre @ attr @ ''='' @ [q1] @ v @ [q2] @ post \<and> \<not> dangling pre
          \<and> \<not> ((suffix ''src='' v \<or> suffix ''href='' v) \<and> prefix ''/'' (post @ ins @ back)) \<longrightarrow>
          fst (injectDevClient api cfg html port w)
            = Inr (rewrite_urls port pre @ attr @ ''='' @ [q1] @ v @ [q2]
                   @ rewrite_urls port (post @ ins @ back))"
    using rewrite_urls_keeps [OF assms(3,4,5,6), of pre "post @ ins @ back" port] e by simp
  have c4: "\<not> prefix ''/'' v \<and> back = pre @ attr @ ''='' @ [q1] @ v @ [q2] @ post
          \<and> \<not> dangling (front @ ins @ pre)
          \<and> \<not> ((suffix ''src='' v \<or> suffix ''href='' v) \<and> prefix ''/'' post) \<longrightarrow>
          fst (injectDevClient api cfg html port w)
            = Inr (rewrite_urls port (front @ ins @ pre) @ attr @ ''='' @ [q1] @ v @ [q2]
                   @ rewrite_urls port post)"
    using rewrite_urls_keeps [OF assms(3,4,5,6), of "front @ ins @ pre" post port] e by simp
  from c0 c1 c2 c3 c4 show ?thesis
    by (intro conjI)
qed

text \<open>
  Four inputs on a runtime that declares \<^verbatim>\<open>window\<close>: a root-relative URL in a page
  without a head tag and in one with a head tag (the example of the specification, with
  identity \<^verbatim>\<open>abc123\<close>), an absolute URL, and a relative path behind the head tag.
\<close>

theorem injectDevClient_rewrites_attribute_witness:
  \<open>fst (injectDevClient window_runtime demo_config ''<img src="/logo.png">'' (Number True ''5173'') empty_world)
     = Inr ''<img src="http://localhost:5173/logo.png">''
   \<and> fst (injectDevClient window_runtime demo_config ''<head></head><img src="/logo.png">''
          (Number True ''5173'') demo_world)
     = Inr (''<head>'' @ injected (Number True ''5173'') ''&manifestId=abc123''
            @ ''</head><img src="http://localhost:5173/logo.png">'')
   \<and> fst (injectDevClient window_runtime demo_config ''<a href="https://example.com/a">'' (Number True ''5173'')
          empty_world)
     = Inr ''<a href="https://example.com/a">''
   \<and> fst (injectDevClient window_runtime demo_config ''<head></head><script src="./main.js"></script>''
          (Number True ''5173'') demo_world)
     = Inr (''<head>'' @ injected (Number True ''5173'') ''&manifestId=abc123''
            @ ''</head><script src="./main.js"></script>'')\<close>
proof -
  let ?p = "Number True ''5173''"
  let ?inj = "injected ?p ''&manifestId=abc123''"
  have w: "window_href window_runtime = Some None"
    by (simp add: window_runtime_def runtime_def)
  have q: "is_quote dq"
    by (simp add: is_quote_def)
  have a1: "''src'' = ''src'' \<or> ''src'' = ''href''" and a2: "''href'' = ''src'' \<or> ''href'' = ''href''"
    by simp_all
  have pt: "number_text ?p = ''5173''"
    by simp
  have m0: "manifest_param (fst (getManifestId window_runtime demo_config empty_world)) = Inr []"
    by code_simp
  have m1: "manifest_param (fst (getManifestId window_runtime demo_config demo_world)) = Inr ''&manifestId=abc123''"
    by code_simp
  have l1: "list_all (\<lambda>c. \<not> is_quote c) ''logo.png''"
    and l2: "list_all (\<lambda>c. \<not> is_quote c) ''https://example.com/a''"
    and l3: "list_all (\<lambda>c. \<not> is_quote c) ''./main.js''"
    by code_simp+
  have n: "\<not> has_replacement_pattern ?inj"
    by (rule injected_no_dollar) simp_all
  have u: "rewrite_urls ?p ?inj = ?inj"
    by (rule injected_unchanged) (simp_all add: is_quote_def dq_def sq_def)
  have s1: \<open>''<img src="/logo.png">'' = fst (head_sides ''<img src="/logo.png">'')\<close>
    \<open>[] = inserted ''<img src="/logo.png">'' ?p []\<close>
    \<open>[] = snd (head_sides ''<img src="/logo.png">'')\<close>
    by code_simp+
  have f2: \<open>find_head ''<head></head><img src="/logo.png">'' = Some ([], ''<head>'', ''</head><img src="/logo.png">'')\<close>
    by code_simp
  have s2: \<open>''<head>'' = fst (head_sides ''<head></head><img src="/logo.png">'')\<close>
    \<open>?inj = inserted ''<head></head><img src="/logo.png">'' ?p ''&manifestId=abc123''\<close>
    \<open>''</head><img src="/logo.png">'' = snd (head_sides ''<head></head><img src="/logo.png">'')\<close>
    using f2 inserted_plain [OF f2 n] by (simp_all add: head_sides_def)
  have s3: \<open>''<a href="https://example.com/a">'' = fst (head_sides ''<a href="https://example.com/a">'')\<close>
    \<open>[] = inserted ''<a href="https://example.com/a">'' ?p []\<close>
    \<open>[] = snd (head_sides ''<a href="https://example.com/a">'')\<close>
    by code_simp+
  have f4: \<open>find_head ''<head></head><script src="./main.js"></script>''
      = Some ([], ''<head>'', ''</head><script src="./main.js"></script>'')\<close>
    by code_simp
  have s4: \<open>''<head>'' = fst (head_sides ''<head></head><script src="./main.js"></script>'')\<close>
    \<open>?inj = inserted ''<head></head><script src="./main.js"></script>'' ?p ''&manifestId=abc123''\<close>
    \<open>''</head><script src="./main.js"></script>'' = snd (head_sides ''<head></head><script src="./main.js"></script>'')\<close>
    using f4 inserted_plain [OF f4 n] by (simp_all add: head_sides_def)
  have dh: "\<not> dangling ''<head>''"
    by code_simp
  have rh: "rewrite_urls ?p ''<head>'' = ''<head>''"
    by code_simp
  have pp: "\<not> pattern_pair (CHR ''>'') c" for c
    by (simp add: pattern_pair_def is_quote_def dq_def sq_def)
  have dg: "dangling (''<head>'' @ ?inj @ pre) = dangling pre" for pre
    using dangling_append [OF dh, of "?inj @ pre"]
      dangling_append [OF injected_not_dangling, of ?p "''&manifestId=abc123''" pre]
      injected_last [of ?p "''&manifestId=abc123''"] pp
    by simp
  have rw: "rewrite_urls ?p (''<head>'' @ ?inj @ pre) = ''<head>'' @ ?inj @ rewrite_urls ?p pre" for pre
    using rewrite_urls_append [OF dh, of "?inj @ pre" ?p] rewrite_urls_injected [OF u, of pre] rh pp
    by simp
  have d: "\<not> dangling ''<img ''" "\<not> dangling ''</head><img ''" "\<not> dangling ''<a ''"
    "\<not> dangling ''</head><script ''"
    by code_simp+
  have r: "rewrite_urls ?p ''<img '' = ''<img ''" "rewrite_urls ?p ''</head><img '' = ''</head><img ''"
    "rewrite_urls ?p ''<a '' = ''<a ''" "rewrite_urls ?p ''</head><script '' = ''</head><script ''"
    "rewrite_urls ?p ''>'' = ''>''" "rewrite_urls ?p ''></script>'' = ''></script>''"
    by code_simp+
  have e1: \<open>''<img src="/logo.png">'' = ''<img '' @ ''src'' @ ''='' @ [dq] @ ''/'' @ ''logo.png'' @ [dq] @ ''>''\<close>
    and e2: \<open>''</head><img src="/logo.png">'' = ''</head><img '' @ ''src'' @ ''='' @ [dq] @ ''/'' @ ''logo.png'' @ [dq] @ ''>''\<close>
    and e3: \<open>''<a href="https://example.com/a">'' = ''<a '' @ ''href'' @ ''='' @ [dq] @ ''https://example.com/a'' @ [dq] @ ''>''\<close>
    and e4: \<open>''</head><script src="./main.js"></script>''
        = ''</head><script '' @ ''src'' @ ''='' @ [dq] @ ''./main.js'' @ [dq] @ ''></script>''\<close>
    by (simp_all add: dq_def)
  have k3: "\<not> prefix ''/'' ''https://example.com/a''"
      "\<not> ((suffix ''src='' ''https://example.com/a'' \<or> suffix ''href='' ''https://example.com/a'')
          \<and> prefix ''/'' (''>'' @ [] @ []))"
    and k4: "\<not> prefix ''/'' ''./main.js''"
      "\<not> ((suffix ''src='' ''./main.js'' \<or> suffix ''href='' ''./main.js'') \<and> prefix ''/'' ''></script>'')"
    by simp_all
  from injectDevClient_rewrites_attribute [OF w m0 a1 q q l1 s1, of "''<img ''" "''>''"] e1 d(1)
  have "fst (injectDevClient window_runtime demo_config ''<img src=\"/logo.png\">'' ?p empty_world)
      = Inr (rewrite_urls ?p ''<img '' @ ''src'' @ ''='' @ [dq] @ ''http://localhost:'' @ number_text ?p
             @ ''/'' @ ''logo.png'' @ [dq] @ rewrite_urls ?p (''>'' @ [] @ []))"
    by blast
  then have 1: \<open>fst (injectDevClient window_runtime demo_config ''<img src="/logo.png">'' ?p empty_world)
      = Inr ''<img src="http://localhost:5173/logo.png">''\<close>
    unfolding append_Nil2 r pt by (simp add: dq_def)
  from injectDevClient_rewrites_attribute [OF w m1 a1 q q l1 s2, of "''</head><img ''" "''>''"] e2 d(2) dg
  have "fst (injectDevClient window_runtime demo_config ''<head></head><img src=\"/logo.png\">'' ?p demo_world)
      = Inr (rewrite_urls ?p (''<head>'' @ ?inj @ ''</head><img '') @ ''src'' @ ''='' @ [dq] @ ''http://localhost:''
             @ number_text ?p @ ''/'' @ ''logo.png'' @ [dq] @ rewrite_urls ?p ''>'')"
    by blast
  then have 2: \<open>fst (injectDevClient window_runtime demo_config ''<head></head><img src="/logo.png">'' ?p demo_world)
      = Inr (''<head>'' @ ?inj @ ''</head><img src="http://localhost:5173/logo.png">'')\<close>
    unfolding rw r pt by (simp add: dq_def)
  from injectDevClient_rewrites_attribute [OF w m0 a2 q q l2 s3, of "''<a ''" "''>''"] e3 d(3) k3
  have "fst (injectDevClient window_runtime demo_config ''<a href=\"https://example.com/a\">'' ?p empty_world)
      = Inr (rewrite_urls ?p ''<a '' @ ''href'' @ ''='' @ [dq] @ ''https://example.com/a'' @ [dq]
             @ rewrite_urls ?p (''>'' @ [] @ []))"
    by blast
  then have 3: \<open>fst (injectDevClient window_runtime demo_config ''<a href="https://example.com/a">'' ?p empty_world)
      = Inr ''<a href="https://example.com/a">''\<close>
    unfolding append_Nil2 r by (simp add: dq_def)
  from injectDevClient_rewrites_attribute [OF w m1 a1 q q l3 s4, of "''</head><script ''" "''></script>''"] e4 d(4) dg k4
  have "fst (injectDevClient window_runtime demo_config ''<head></head><script src=\"./main.js\"></script>'' ?p demo_world)
      = Inr (rewrite_urls ?p (''<head>'' @ ?inj @ ''</head><script '') @ ''src'' @ ''='' @ [dq] @ ''./main.js'' @ [dq]
             @ rewrite_urls ?p ''></script>'')"
    by blast
  then have 4: \<open>fst (injectDevClient window_runtime demo_config ''<head></head><script src="./main.js"></script>'' ?p demo_world)
      = Inr (''<head>'' @ ?inj @ ''</head><script src="./main.js"></script>'')\<close>
    unfolding rw r by (simp add: dq_def)
  from 1 2 3 4 show ?thesis by (intro conjI)
qed

text \<open>
  The claim as stated promises to keep the quoting style: a single-quoted attribute comes
  out double-quoted. The value \<^verbatim>\<open>/\<close> alone is not rewritten. An attribute behind an
  unclosed value is swallowed by the match that begins there, and is not rewritten. An
  attribute that the head tag's own \<^verbatim>\<open>>\<close> cuts in two is not rewritten: the match runs
  into the inserted script. A value that ends in \<^verbatim>\<open>href=\<close> does not begin with a slash,
  and its closing quote is changed. In plain Node the transform throws a ReferenceError,
  and with the identity \<^verbatim>\<open>{"toString": null}\<close> a TypeError: nothing is rewritten.
\<close>

theorem injectDevClient_quoting_counterexample:
  \<open>fst (injectDevClient window_runtime demo_config ''<a href='/x'>y</a>'' (Number True ''5173'') empty_world)
     = Inr ''<a href="http://localhost:5173/x">y</a>''
   \<and> fst (injectDevClient window_runtime demo_config ''<a href="/">home</a>'' (Number True ''5173'') empty_world)
     = Inr ''<a href="/">home</a>''
   \<and> fst (injectDevClient window_runtime demo_config ''<a href="/x><img src="/y">'' (Number True ''5173'') empty_world)
     = Inr ''<a href="http://localhost:5173/x><img src="/y">''
   \<and> fst (injectDevClient window_runtime demo_config ''<head src="/a>b">'' (Number True ''5173'') empty_world)
     = Inr (''<head src="http://localhost:5173/a>'' @ (injected (Number True ''5173'') [])[157 := dq] @ ''b">'')
   \<and> fst (injectDevClient window_runtime demo_config ''<img src='xhref='/b'>'' (Number True ''5173'') empty_world)
     = Inr ''<img src='xhref="http://localhost:5173/b">''
   \<and> fst (injectDevClient node_runtime demo_config ''<img src="/logo.png">'' (Number True ''5173'') empty_world)
     = Inl (ReferenceError ''window is not defined'')
   \<and> fst (injectDevClient window_runtime demo_config ''<img src="/logo.png">'' (Number True ''5173'')
         (manifest_world (File ''{"id": {"toString": null}}'')))
     = Inl (TypeError ''Cannot convert object to primitive value'')\<close>
  by code_simp

section \<open>The first replacement: the injected script\<close>

text \<open>
  Claim C4, as the code has it. Let the pattern \<^verbatim>\<open><head[^>]*>\<close> (letters in either case)
  have its leftmost match \<open>tag\<close> in the input, with \<open>pre\<close> in front and \<open>post\<close> behind.
  Let the runtime declare \<^verbatim>\<open>window\<close> and the conversion of the manifest identity to a
  string succeed, so that the script text exists. When that text holds no replacement
  pattern, the second replacement finds nothing to rewrite in it, and the scan of the
  second replacement leaves no attribute value unclosed at the end of \<open>tag\<close>, one
  transform gives the text up to the closing \<^verbatim>\<open>>\<close> of \<open>tag\<close> (root-relative URLs
  rewritten), then a line break, four spaces and the client script, then \<open>post\<close>
  (root-relative URLs rewritten): the script is inserted once, directly behind the first
  match.
\<close>

theorem injectDevClient_after_first_head:
  assumes "window_href api = Some href"
    and "find_head html = Some (pre, tag, post)"
    and "getManifestId api cfg w = (m, w1)"
    and "manifest_param m = Inr ip"
    and "\<not> has_replacement_pattern (injected port ip)"
    and "rewrite_urls port (injected port ip) = injected port ip"
    and "\<not> dangling (pre @ tag)"
  shows "html = pre @ tag @ post
    \<and> match_head (tag @ post) = Some (tag, post)
    \<and> (\<forall>i < length pre. match_head (drop i html) = None)
    \<and> injectDevClient api cfg html port w =
        (Inr (rewrite_urls port (butlast (pre @ tag)) @ ''>'' @ injected port ip @ rewrite_urls port post), w1)"
proof -
  from find_head_SomeD [OF assms(2)]
  have h: "html = pre @ tag @ post" and mh: "match_head (tag @ post) = Some (tag, post)"
    by simp_all
  from match_head_SomeD [OF mh] have "tag \<noteq> []" and "last tag = CHR ''>''"
    by simp_all
  then have "rewrite_urls port (pre @ tag) = rewrite_urls port (butlast (pre @ tag)) @ ''>''"
    using rewrite_urls_closing [OF assms(7), of port] by simp
  with injectDevClient_head_eq [OF assms, of] find_head_first [OF assms(2)] h mh
  show ?thesis by simp
qed

text \<open>A page with an upper-case tag that has an attribute; the manifest identity is \<^verbatim>\<open>abc123\<close>.\<close>

theorem injectDevClient_after_first_head_witness:
  \<open>find_head ''<!DOCTYPE html><html><HEAD lang="en"><title>x</title></HEAD><body><img src="/logo.png"></body></html>''
     = Some (''<!DOCTYPE html><html>'', ''<HEAD lang="en">'',
             ''<title>x</title></HEAD><body><img src="/logo.png"></body></html>'')
   \<and> injectDevClient window_runtime demo_config
        ''<!DOCTYPE html><html><HEAD lang="en"><title>x</title></HEAD><body><img src="/logo.png"></body></html>''
        (Number True ''5173'') demo_world
     = (Inr (''<!DOCTYPE html><html><HEAD lang="en">'' @ injected (Number True ''5173'') ''&manifestId=abc123''
              @ ''<title>x</title></HEAD><body><img src="http://localhost:5173/logo.png"></body></html>''),
        demo_world)\<close>
proof -
  have w: "window_href window_runtime = Some None"
    by (simp add: window_runtime_def runtime_def)
  have f: \<open>find_head ''<!DOCTYPE html><html><HEAD lang="en"><title>x</title></HEAD><body><img src="/logo.png"></body></html>''
     = Some (''<!DOCTYPE html><html>'', ''<HEAD lang="en">'',
             ''<title>x</title></HEAD><body><img src="/logo.png"></body></html>'')\<close>
    by code_simp
  have g: "getManifestId window_runtime demo_config demo_world = (JStr ''abc123'', demo_world)"
    by code_simp
  have p: "manifest_param (JStr ''abc123'') = Inr ''&manifestId=abc123''"
    by (simp add: manifest_param_def)
  have n: "\<not> has_replacement_pattern (injected (Number True ''5173'') ''&manifestId=abc123'')"
    by (rule injected_no_dollar) simp_all
  have u: "rewrite_urls (Number True ''5173'') (injected (Number True ''5173'') ''&manifestId=abc123'')
      = injected (Number True ''5173'') ''&manifestId=abc123''"
    by (rule injected_unchanged) (simp_all add: is_quote_def dq_def sq_def)
  have d: \<open>\<not> dangling (''<!DOCTYPE html><html>'' @ ''<HEAD lang="en">'')\<close>
    by code_simp
  have r1: \<open>rewrite_urls (Number True ''5173'') (butlast (''<!DOCTYPE html><html>'' @ ''<HEAD lang="en">''))
      = ''<!DOCTYPE html><html><HEAD lang="en"''\<close>
    by code_simp
  have r2: \<open>rewrite_urls (Number True ''5173'') ''<title>x</title></HEAD><body><img src="/logo.png"></body></html>''
      = ''<title>x</title></HEAD><body><img src="http://localhost:5173/logo.png"></body></html>''\<close>
    by code_simp
  from injectDevClient_after_first_head [OF w f g p n u d] r1 r2 f
  show ?thesis by simp
qed

text \<open>
  The claim as stated speaks of every input with a \<^verbatim>\<open><head>\<close> tag. The pattern also
  matches \<^verbatim>\<open><header>\<close>: with one in front, the script lands behind it and nothing is
  inserted behind \<^verbatim>\<open><head>\<close>. When the tag leaves a quoted value open, the second
  replacement runs into the script and turns its first single quote into a double quote.
  With the identity \<^verbatim>\<open>a$&b\<close> the first replacement expands \<^verbatim>\<open>$&\<close> to the matched tag
  inside the script. With the identity \<^verbatim>\<open>src='/x\<close> the second replacement rewrites a
  part of the script. In plain Node the transform throws a ReferenceError, and with the
  identity \<^verbatim>\<open>{"toString": null}\<close> a TypeError: nothing is produced.
\<close>

theorem injectDevClient_head_counterexample:
  \<open>injectDevClient window_runtime demo_config ''<header></header><head></head>'' (Number True ''5173'') empty_world
     = (Inr (''<header>'' @ injected (Number True ''5173'') [] @ ''</header><head></head>''), empty_world)
   \<and> injectDevClient window_runtime demo_config ''<head data-src="/x></head>'' (Number True ''5173'') empty_world
     = (Inr (''<head data-src="http://localhost:5173/x>'' @ (injected (Number True ''5173'') [])[157 := dq]
              @ ''</head>''), empty_world)
   \<and> injected (Number True ''5173'') [] ! 157 = sq
   \<and> fst (injectDevClient window_runtime demo_config ''<head></head>'' (Number True ''5173'')
         (manifest_world (File ''{"id": "a$&b"}'')))
     = Inr (''<head>'' @ injected (Number True ''5173'') ''&manifestId=a<head>b'' @ ''</head>'')
   \<and> fst (injectDevClient window_runtime demo_config ''<head></head>'' (Number True ''5173'')
         (manifest_world (File ''{"id": "src='/x"}'')))
     = Inr (''<head>'' @ take 192 (injected (Number True ''5173'') ''&manifestId=src='/x'')
             @ ''src="http://localhost:5173/x&target="''
             @ drop 208 (injected (Number True ''5173'') ''&manifestId=src='/x'') @ ''</head>'')
   \<and> fst (injectDevClient node_runtime demo_config ''<head></head>'' (Number True ''5173'') demo_world)
     = Inl (ReferenceError ''window is not defined'')
   \<and> fst (injectDevClient window_runtime demo_config ''<head></head>'' (Number True ''5173'')
         (manifest_world (File ''{"id": {"toString": null}}'')))
     = Inl (TypeError ''Cannot convert object to primitive value'')\<close>
  by code_simp

section \<open>Writing an entrypoint\<close>

text \<open>
  The transform of the page in the specification's example, on the runtime that declares
  \<^verbatim>\<open>window\<close>, with the identity \<^verbatim>\<open>abc123\<close> and a port that prints as digits.
\<close>

lemma demo_transform:
  assumes "getManifestId window_runtime demo_config w = (JStr ''abc123'', w)"
    and "list_all (\<lambda>c. \<not> is_quote c) (number_text port)" and "number_text port \<noteq> []"
    and "hd (number_text port) \<noteq> CHR ''/''" and "CHR ''$'' \<notin> set (number_text port)"
  shows \<open>injectDevClient window_runtime demo_config ''<head></head><img src="/logo.png">'' port w
    = (Inr (''<head>'' @ injected port ''&manifestId=abc123''
            @ ''</head><img src="http://localhost:'' @ number_text port @ ''/logo.png">''), w)\<close>
proof -
  have w: "window_href window_runtime = Some None"
    by (simp add: window_runtime_def runtime_def)
  have f: \<open>find_head ''<head></head><img src="/logo.png">'' = Some ([], ''<head>'', ''</head><img src="/logo.png">'')\<close>
    by code_simp
  have p: "manifest_param (JStr ''abc123'') = Inr ''&manifestId=abc123''"
    by (simp add: manifest_param_def)
  have n: "\<not> has_replacement_pattern (injected port ''&manifestId=abc123'')"
    using assms(5) by (intro injected_no_dollar) simp_all
  have u: "rewrite_urls port (injected port ''&manifestId=abc123'') = injected port ''&manifestId=abc123''"
    using assms(2,3,4) by (intro injected_unchanged) (simp_all add: is_quote_def dq_def sq_def)
  have d: "\<not> dangling ([] @ ''<head>'')"
    by code_simp
  have r1: "rewrite_urls port ([] @ ''<head>'') = ''<head>''"
    by (simp add: rewrite_urls.simps match_url_def match_attr_name_def)
  have m: \<open>match_url (''src'' @ ''='' @ [dq] @ ''/'' @ ''logo.png'' @ [dq] @ ''>'') = Some (''src'', ''logo.png'', ''>'')\<close>
    by (rule match_url_literal) (simp_all add: is_quote_def dq_def sq_def)
  have "rewrite_urls port (''</head><img '' @ ''src'' @ ''='' @ [dq] @ ''/'' @ ''logo.png'' @ [dq] @ ''>'')
      = rewrite_urls port ''</head><img '' @ ''src'' @ ''='' @ [dq] @ ''http://localhost:'' @ number_text port
        @ ''/'' @ ''logo.png'' @ [dq] @ rewrite_urls port ''>''"
    by (rule rewrite_urls_occurrence) (simp_all add: is_quote_def dq_def sq_def, code_simp)
  moreover have "rewrite_urls port ''</head><img '' = ''</head><img ''" and "rewrite_urls port ''>'' = ''>''"
    by (simp_all add: rewrite_urls.simps match_url_def match_attr_name_def)
  ultimately have r2: \<open>rewrite_urls port ''</head><img src="/logo.png">''
      = ''</head><img src="http://localhost:'' @ number_text port @ ''/logo.png">''\<close>
    by (simp add: dq_def)
  from injectDevClient_head_eq [OF w f assms(1) p n u d] show ?thesis
    unfolding r1 r2 by simp
qed

text \<open>
  Claim C5, as the code has it. Let \<^verbatim>\<open>configResolved\<close> have run, and let \<open>src\<close> and \<open>out\<close>
  be the resolved input and output paths of the entrypoint.

  \<^item> When \<open>src\<close> does not exist, \<^verbatim>\<open>writeEntrypoint\<close> logs one warning and returns: no
    exception, the file system untouched.
  \<^item> When \<open>src\<close> exists and reading it, the transform, \<^verbatim>\<open>mkdirSync\<close> and
    \<^verbatim>\<open>writeFileSync\<close> all succeed, it has created the directory of \<open>out\<close>, written
    the transformed text to \<open>out\<close>, logged the line that names both paths, and returns.
  \<^item> When one of these four steps throws, the exception leaves \<^verbatim>\<open>writeEntrypoint\<close>:
    nothing catches it. What the steps before it did stays done, and nothing is logged.
\<close>

theorem writeEntrypoint_contract:
  assumes "cfg = Some c"
    and "src = path_resolve api [root c, entry_input e]"
    and "out = path_resolve api [root c, entry_output e]"
  shows "(\<not> existsSync api (fsys w) src \<longrightarrow>
            writeEntrypoint api cfg e port w = (None, console_warn (''[bks] Source HTML not found: '' @ src) w))
    \<and> (existsSync api (fsys w) src \<and> readFileSync api (fsys w) src = Inr html
          \<and> injectDevClient api cfg html port w = (Inr html', w1)
          \<and> mkdirSync api (fsys w1) (path_dirname api out) = (None, fs2)
          \<and> writeFileSync api fs2 out html' = (None, fs3) \<longrightarrow>
            writeEntrypoint api cfg e port w = (None, console_log (transformed_message e) (w1\<lparr>fsys := fs3\<rparr>)))
    \<and> (existsSync api (fsys w) src \<and> readFileSync api (fsys w) src = Inl err \<longrightarrow>
            writeEntrypoint api cfg e port w = (Some err, w))
    \<and> (existsSync api (fsys w) src \<and> readFileSync api (fsys w) src = Inr html
          \<and> injectDevClient api cfg html port w = (Inl err, w1) \<longrightarrow>
            writeEntrypoint api cfg e port w = (Some err, w1))
    \<and> (existsSync api (fsys w) src \<and> readFileSync api (fsys w) src = Inr html
          \<and> injectDevClient api cfg html port w = (Inr html', w1)
          \<and> mkdirSync api (fsys w1) (path_dirname api out) = (Some err, fs2) \<longrightarrow>
            writeEntrypoint api cfg e port w = (Some err, w1\<lparr>fsys := fs2\<rparr>))
    \<and> (existsSync api (fsys w) src \<and> readFileSync api (fsys w) src = Inr html
          \<and> injectDevClient api cfg html port w = (Inr html', w1)
          \<and> mkdirSync api (fsys w1) (path_dirname api out) = (None, fs2)
          \<and> writeFileSync api fs2 out html' = (Some err, fs3) \<longrightarrow>
            writeEntrypoint api cfg e port w = (Some err, w1\<lparr>fsys := fs3\<rparr>))"
  using assms by (simp add: writeEntrypoint_def config_root_def fs_call_def Let_def)

text \<open>
  The default entrypoint in two projects: one without \<^verbatim>\<open>index.html\<close>, and the project
  of the example, where \<^verbatim>\<open>dist\<close> does not exist yet.
\<close>

theorem writeEntrypoint_contract_witness:
  \<open>writeEntrypoint window_runtime demo_config \<lparr>entry_input = ''index.html'', entry_output = ''dist/index.html''\<rparr>
      (Number True ''5173'') empty_world
     = (None, console_warn ''[bks] Source HTML not found: /p/index.html'' empty_world)
   \<and> writeEntrypoint window_runtime demo_config \<lparr>entry_input = ''index.html'', entry_output = ''dist/index.html''\<rparr>
      (Number True ''5173'') demo_world
     = (None, console_log (transformed_message \<lparr>entry_input = ''index.html'', entry_output = ''dist/index.html''\<rparr>)
          (demo_world\<lparr>fsys := fsys demo_world
             @ [(''/p/dist'', Dir),
                (''/p/dist/index.html'',
                 File (''<head>'' @ injected (Number True ''5173'') ''&manifestId=abc123''
                       @ ''</head><img src="http://localhost:5173/logo.png">''))]\<rparr>))\<close>
proof -
  let ?e = "\<lparr>entry_input = ''index.html'', entry_output = ''dist/index.html''\<rparr>"
  let ?p = "Number True ''5173''"
  let ?out = \<open>''<head>'' @ injected ?p ''&manifestId=abc123'' @ ''</head><img src="http://localhost:5173/logo.png">''\<close>
  have c: "demo_config = Some \<lparr>root = ''/p''\<rparr>"
    by (simp add: demo_config_def)
  have s: "''/p/index.html'' = path_resolve window_runtime [root \<lparr>root = ''/p''\<rparr>, entry_input ?e]"
    and o: "''/p/dist/index.html'' = path_resolve window_runtime [root \<lparr>root = ''/p''\<rparr>, entry_output ?e]"
    by code_simp+
  note t = writeEntrypoint_contract [OF c s o]
  have 1: "\<not> existsSync window_runtime (fsys empty_world) ''/p/index.html''"
    by code_simp
  have 2: \<open>existsSync window_runtime (fsys demo_world) ''/p/index.html''
      \<and> readFileSync window_runtime (fsys demo_world) ''/p/index.html'' = Inr ''<head></head><img src="/logo.png">''\<close>
    by code_simp
  have g: "getManifestId window_runtime demo_config demo_world = (JStr ''abc123'', demo_world)"
    by code_simp
  have 3: \<open>injectDevClient window_runtime demo_config ''<head></head><img src="/logo.png">'' ?p demo_world
      = (Inr ?out, demo_world)\<close>
    using demo_transform [OF g, of ?p] by (simp add: is_quote_def dq_def sq_def)
  have 4: "mkdirSync window_runtime (fsys demo_world) (path_dirname window_runtime ''/p/dist/index.html'')
      = (None, fsys demo_world @ [(''/p/dist'', Dir)])"
    by code_simp
  have 5: "writeFileSync window_runtime (fsys demo_world @ [(''/p/dist'', Dir)]) ''/p/dist/index.html'' x
      = (None, fsys demo_world @ [(''/p/dist'', Dir), (''/p/dist/index.html'', File x)])" for x
    by code_simp
  from t [of empty_world ?p] 1
  have a: "writeEntrypoint window_runtime demo_config ?e ?p empty_world
     = (None, console_warn (''[bks] Source HTML not found: '' @ ''/p/index.html'') empty_world)"
    by blast
  from t [of demo_world ?p \<open>''<head></head><img src="/logo.png">''\<close> ?out demo_world
      "fsys demo_world @ [(''/p/dist'', Dir)]"
      "fsys demo_world @ [(''/p/dist'', Dir), (''/p/dist/index.html'', File ?out)]"] 2 3 4 5 [of ?out]
  have b: "writeEntrypoint window_runtime demo_config ?e ?p demo_world
     = (None, console_log (transformed_message ?e)
          (demo_world\<lparr>fsys := fsys demo_world @ [(''/p/dist'', Dir), (''/p/dist/index.html'', File ?out)]\<rparr>))"
    by blast
  from a b show ?thesis by simp
qed

text \<open>
  The claim as stated promises that no exception is raised. With a directory at the
  input path \<^verbatim>\<open>readFileSync\<close> throws; with a read-only project directory
  \<^verbatim>\<open>mkdirSync\<close> throws; with a directory at the output path \<^verbatim>\<open>writeFileSync\<close> throws,
  after the transform and \<^verbatim>\<open>mkdirSync\<close> have run. In plain Node the transform throws
  for every page, so that nothing is ever written.
\<close>

theorem writeEntrypoint_throws_counterexample:
  \<open>writeEntrypoint window_runtime demo_config \<lparr>entry_input = ''index.html'', entry_output = ''dist/index.html''\<rparr>
      (Number True ''5173'') \<lparr>fsys = [(''/p'', Dir), (''/p/index.html'', Dir)], console = []\<rparr>
     = (Some (SystemError ''EISDIR''), \<lparr>fsys = [(''/p'', Dir), (''/p/index.html'', Dir)], console = []\<rparr>)
   \<and> writeEntrypoint window_runtime demo_config \<lparr>entry_input = ''index.html'', entry_output = ''dist/index.html''\<rparr>
      (Number True ''5173'')
      \<lparr>fsys = [(''/p'', ReadOnlyDir), (''/p/manifest.json'', File ''{"id": "abc123"}''),
               (''/p/index.html'', File ''<head></head><img src="/logo.png">'')], console = []\<rparr>
     = (Some (SystemError ''EACCES''),
        \<lparr>fsys = [(''/p'', ReadOnlyDir), (''/p/manifest.json'', File ''{"id": "abc123"}''),
               (''/p/index.html'', File ''<head></head><img src="/logo.png">'')], console = []\<rparr>)
   \<and> writeEntrypoint window_runtime demo_config \<lparr>entry_input = ''index.html'', entry_output = ''dist/index.html''\<rparr>
      (Number True ''5173'')
      \<lparr>fsys = [(''/p'', Dir), (''/p/manifest.json'', File ''{"id": "abc123"}''),
               (''/p/index.html'', File ''<head></head><img src="/logo.png">''),
               (''/p/dist'', Dir), (''/p/dist/index.html'', Dir)], console = []\<rparr>
     = (Some (SystemError ''EISDIR''),
        \<lparr>fsys = [(''/p'', Dir), (''/p/manifest.json'', File ''{"id": "abc123"}''),
               (''/p/index.html'', File ''<head></head><img src="/logo.png">''),
               (''/p/dist'', Dir), (''/p/dist/index.html'', Dir)], console = []\<rparr>)
   \<and> writeEntrypoint node_runtime demo_config \<lparr>entry_input = ''index.html'', entry_output = ''dist/index.html''\<rparr>
      (Number True ''5173'') demo_world
     = (Some (ReferenceError ''window is not defined''), demo_world)\<close>
proof -
  let ?e = "\<lparr>entry_input = ''index.html'', entry_output = ''dist/index.html''\<rparr>"
  let ?p = "Number True ''5173''"
  let ?out = \<open>''<head>'' @ injected ?p ''&manifestId=abc123'' @ ''</head><img src="http://localhost:5173/logo.png">''\<close>
  let ?w1 = "\<lparr>fsys = [(''/p'', Dir), (''/p/index.html'', Dir)], console = []\<rparr> :: node_fs world"
  let ?w2 = \<open>\<lparr>fsys = [(''/p'', ReadOnlyDir), (''/p/manifest.json'', File ''{"id": "abc123"}''),
               (''/p/index.html'', File ''<head></head><img src="/logo.png">'')], console = []\<rparr> :: node_fs world\<close>
  let ?w3 = \<open>\<lparr>fsys = [(''/p'', Dir), (''/p/manifest.json'', File ''{"id": "abc123"}''),
               (''/p/index.html'', File ''<head></head><img src="/logo.png">''),
               (''/p/dist'', Dir), (''/p/dist/index.html'', Dir)], console = []\<rparr> :: node_fs world\<close>
  have c: "config_root demo_config = Inr ''/p''"
    by (simp add: demo_config_def config_root_def)
  have s: "path_resolve window_runtime [''/p'', entry_input ?e] = ''/p/index.html''"
      "path_resolve node_runtime [''/p'', entry_input ?e] = ''/p/index.html''"
    and o: "path_resolve window_runtime [''/p'', entry_output ?e] = ''/p/dist/index.html''"
      "path_resolve node_runtime [''/p'', entry_output ?e] = ''/p/dist/index.html''"
    by code_simp+
  have 1: "writeEntrypoint window_runtime demo_config ?e ?p ?w1 = (Some (SystemError ''EISDIR''), ?w1)"
    by code_simp
  have g2: "getManifestId window_runtime demo_config ?w2 = (JStr ''abc123'', ?w2)"
    and g3: "getManifestId window_runtime demo_config ?w3 = (JStr ''abc123'', ?w3)"
    by code_simp+
  have t2: \<open>injectDevClient window_runtime demo_config ''<head></head><img src="/logo.png">'' ?p ?w2 = (Inr ?out, ?w2)\<close>
    using demo_transform [OF g2, of ?p] by (simp add: is_quote_def dq_def sq_def)
  have t3: \<open>injectDevClient window_runtime demo_config ''<head></head><img src="/logo.png">'' ?p ?w3 = (Inr ?out, ?w3)\<close>
    using demo_transform [OF g3, of ?p] by (simp add: is_quote_def dq_def sq_def)
  have e2: \<open>existsSync window_runtime (fsys ?w2) ''/p/index.html''\<close>
      \<open>readFileSync window_runtime (fsys ?w2) ''/p/index.html'' = Inr ''<head></head><img src="/logo.png">''\<close>
      \<open>mkdirSync window_runtime (fsys ?w2) (path_dirname window_runtime ''/p/dist/index.html'')
        = (Some (SystemError ''EACCES''), fsys ?w2)\<close>
    by code_simp+
  have e3: \<open>existsSync window_runtime (fsys ?w3) ''/p/index.html''\<close>
      \<open>readFileSync window_runtime (fsys ?w3) ''/p/index.html'' = Inr ''<head></head><img src="/logo.png">''\<close>
      \<open>mkdirSync window_runtime (fsys ?w3) (path_dirname window_runtime ''/p/dist/index.html'') = (None, fsys ?w3)\<close>
      \<open>writeFileSync window_runtime (fsys ?w3) ''/p/dist/index.html'' x = (Some (SystemError ''EISDIR''), fsys ?w3)\<close>
    for x
    by code_simp+
  have 2: "writeEntrypoint window_runtime demo_config ?e ?p ?w2 = (Some (SystemError ''EACCES''), ?w2)"
    unfolding writeEntrypoint_def c using s(1) o(1) e2 t2 by (simp add: fs_call_def)
  have 3: "writeEntrypoint window_runtime demo_config ?e ?p ?w3 = (Some (SystemError ''EISDIR''), ?w3)"
    unfolding writeEntrypoint_def c using s(1) o(1) e3 t3 by (simp add: fs_call_def)
  have 4: "writeEntrypoint node_runtime demo_config ?e ?p demo_world
      = (Some (ReferenceError ''window is not defined''), demo_world)"
    by code_simp
  from 1 2 3 4 show ?thesis by (intro conjI)
qed

section \<open>The port of the watcher\<close>

lemma watch_each_listeners:
  "config st = Some c \<Longrightarrow>
   watch_each api q es st =
     (None, st\<lparr>watched := watched st @ map (\<lambda>e. path_resolve api [root c, entry_input e]) es,
                change_listeners := change_listeners st
                  @ map (\<lambda>e. \<lparr>absPath = path_resolve api [root c, entry_input e], entry = e, devPort = q\<rparr>) es\<rparr>)"
proof (induction es arbitrary: st)
  case Nil
  then show ?case by simp
next
  case (Cons e es)
  let ?st = "st\<lparr>watched := watched st @ [path_resolve api [root c, entry_input e]],
        change_listeners := change_listeners st
          @ [\<lparr>absPath = path_resolve api [root c, entry_input e], entry = e, devPort = q\<rparr>]\<rparr>"
  have "config ?st = Some c"
    using Cons.prems by simp
  from Cons.IH [OF this] Cons.prems show ?case
    by (simp add: config_root_def Let_def)
qed

lemma copyDevFiles_None: "\<exists>w1. copyDevFiles api st w = (None, w1)"
  by (simp add: copyDevFiles_def split: prod.splits option.splits)

text \<open>
  Claim C1. The plugin is created with the entrypoints \<open>es\<close> and the configured port
  \<open>configured\<close>, \<^verbatim>\<open>configResolved\<close> and \<^verbatim>\<open>configureServer\<close> run, and then the http server
  emits \<^verbatim>\<open>listening\<close> on the port \<open>p\<close>. The port is captured, the handler is gone, so the
  captured port never changes, and \<^verbatim>\<open>writeAll\<close> has rewritten every entrypoint with \<open>p\<close>.
  But each change listener still holds the port that \<^verbatim>\<open>watchFiles\<close> computed when it
  registered the listener, before the server was listening: the configured port, or 5173.
  A change of an entrypoint's file rewrites that entrypoint with this port, not with \<open>p\<close>.
\<close>

theorem watchFiles_keeps_registration_port:
  assumes "st0 = configResolved c (bks es configured True)"
    and "configureServer api st0 w0 = (r1, st1, w1)"
    and "number_truthy p"
    and "emit_listening api (AddressInfo p) st1 w1 = (r2, st2, w2)"
  shows "r1 = None
    \<and> portFromServer st2 = Some p
    \<and> (r2, w2) = write_each api (Some c) p es w1
    \<and> emit_listening api addr st2 w = (None, st2, w)
    \<and> change_listeners st2
        = map (\<lambda>e. \<lparr>absPath = path_resolve api [root c, entry_input e], entry = e,
                       devPort = dev_port None configured\<rparr>) es
    \<and> emit_change api changed st2 w = run_listeners api (Some c) changed (change_listeners st2) w"
proof -
  obtain w' where cp: "copyDevFiles api st0 w0 = (None, w')"
    using copyDevFiles_None by blast
  let ?sta = "st0\<lparr>middlewares := middlewares st0 @ [InfoEndpoint, OriginGuard], listening_once := True\<rparr>"
  have c0: "config ?sta = Some c"
    by (simp add: assms(1) configResolved_def bks_def)
  have h0: "httpServer st0" "portFromServer st0 = None" "server_port st0 = configured" "entrypoints st0 = es"
    "change_listeners st0 = []" "watched st0 = []" "config st0 = Some c"
    by (simp_all add: assms(1) configResolved_def bks_def)
  let ?ls = "map (\<lambda>e. \<lparr>absPath = path_resolve api [root c, entry_input e], entry = e,
      devPort = dev_port None configured\<rparr>) es"
  from assms(2) cp h0 watch_each_listeners [OF c0, of api "dev_port None configured" es]
  have s1: "st1 = ?sta\<lparr>watched := map (\<lambda>e. path_resolve api [root c, entry_input e]) es, change_listeners := ?ls\<rparr>"
    and r1: "r1 = None" and w1: "w1 = w'"
    by (simp_all add: configureServer_def watchFiles_def Let_def)
  let ?st2 = "st1\<lparr>listening_once := False, portFromServer := Some p\<rparr>"
  have dp: "dev_port (Some p) configured = p"
    using assms(3) by (simp add: dev_port_def or_port_def)
  from assms(4) have s2: "st2 = ?st2" and rw: "(r2, w2) = write_each api (Some c) p es w1"
    using assms(3) dp h0
    by (auto simp: emit_listening_def capture_port_def writeAll_def Let_def s1 c0 split: prod.splits)
  have "portFromServer st2 = Some p" and "change_listeners st2 = ?ls" and "config st2 = Some c"
    and "\<not> listening_once st2"
    using c0 by (simp_all add: s2 s1)
  with r1 rw show ?thesis
    by (simp add: emit_listening_def emit_change_def)
qed

text \<open>
  The plugin with its default entrypoint and the configured port 5173; the server comes to
  listen on 5174. The listener for \<^verbatim>\<open>/p/index.html\<close> holds 5173.
\<close>

theorem watchFiles_keeps_registration_port_witness:
  "portFromServer
     (fst (snd (emit_listening window_runtime (AddressInfo (Number True ''5174''))
        (fst (snd (configureServer window_runtime demo_state demo_world)))
        (snd (snd (configureServer window_runtime demo_state demo_world))))))
     = Some (Number True ''5174'')
   \<and> change_listeners
     (fst (snd (emit_listening window_runtime (AddressInfo (Number True ''5174''))
        (fst (snd (configureServer window_runtime demo_state demo_world)))
        (snd (snd (configureServer window_runtime demo_state demo_world))))))
     = [\<lparr>absPath = ''/p/index.html'', entry = \<lparr>entry_input = ''index.html'', entry_output = ''dist/index.html''\<rparr>,
         devPort = Number True ''5173''\<rparr>]"
proof -
  let ?c = "configureServer window_runtime demo_state demo_world"
  let ?l = "emit_listening window_runtime (AddressInfo (Number True ''5174'')) (fst (snd ?c)) (snd (snd ?c))"
  have h1: "demo_state = configResolved \<lparr>root = ''/p''\<rparr> (bks default_entrypoints (Some (Number True ''5173'')) True)"
    by (simp add: demo_state_def)
  have h2: "?c = (fst ?c, fst (snd ?c), snd (snd ?c))"
    by simp
  have h3: "number_truthy (Number True ''5174'')"
    by simp
  have h4: "?l = (fst ?l, fst (snd ?l), snd (snd ?l))"
    by simp
  have p: "path_resolve window_runtime [root \<lparr>root = ''/p''\<rparr>, entry_input \<lparr>entry_input = ''index.html'', entry_output = ''dist/index.html''\<rparr>]
      = ''/p/index.html''"
    by code_simp
  have d: "dev_port None (Some (Number True ''5173'')) = Number True ''5173''"
    by (simp add: dev_port_def or_port_def)
  from watchFiles_keeps_registration_port [OF h1 h2 h3 h4] p d
  show ?thesis by (simp add: default_entrypoints_def)
qed

section \<open>The transform in plain Node\<close>

text \<open>
  Claim C9. The claim is about the output of the transform. On a runtime that does not
  declare \<^verbatim>\<open>window\<close>, as plain Node, where the dev server runs the plugin, the transform
  has no output: for every input it throws a ReferenceError when it evaluates
  \<^verbatim>\<open>window?.location?.href\<close>, after reading the manifest and before the first replacement.
\<close>

theorem injectDevClient_throws_without_window:
  "window_href api = None \<Longrightarrow>
     fst (injectDevClient api cfg html port w) = Inl (ReferenceError ''window is not defined'')"
  by (simp add: injectDevClient_def split: prod.splits)

theorem injectDevClient_throws_without_window_witness:
  "window_href node_runtime = None
   \<and> fst (injectDevClient node_runtime demo_config ''<head></head>'' (Number True ''5173'') demo_world)
     = Inl (ReferenceError ''window is not defined'')"
proof -
  have w: "window_href node_runtime = None"
    by (simp add: node_runtime_def runtime_def)
  from injectDevClient_throws_without_window [OF w] w show ?thesis
    by simp
qed

section \<open>Provisioning the output directories\<close>

lemma collect_output_dirs_Inr:
  "\<exists>dirs. collect_output_dirs api (Some c) es acc = Inr dirs
     \<and> (distinct acc \<longrightarrow> distinct dirs)
     \<and> set dirs = set acc \<union> (\<lambda>e. path_resolve api [root c, path_dirname api (entry_output e)]) ` set es"
proof (induction es arbitrary: acc)
  case Nil
  then show ?case by simp
next
  case (Cons e es)
  let ?d = "path_resolve api [root c, path_dirname api (entry_output e)]"
  let ?acc = "if ?d \<in> set acc then acc else acc @ [?d]"
  from Cons.IH [of ?acc] obtain dirs where "collect_output_dirs api (Some c) es ?acc = Inr dirs"
    and "distinct ?acc \<longrightarrow> distinct dirs"
    and "set dirs = set ?acc \<union> (\<lambda>e. path_resolve api [root c, path_dirname api (entry_output e)]) ` set es"
    by blast
  then show ?case
    by (auto simp: config_root_def Let_def)
qed

lemma copyDevFiles_never_throws: "fst (copyDevFiles api st w) = None"
  by (simp add: copyDevFiles_def split: prod.splits option.splits)

text \<open>
  Claim C8, as the code has it. Let \<^verbatim>\<open>configResolved\<close> have run. \<^verbatim>\<open>copyDevFiles\<close> never
  throws. The directories it provisions are the output directories of the entrypoints,
  each once. For one directory it creates the directory when that does not exist, copies
  \<^verbatim>\<open>eventForwarder.js\<close> when its source exists, and copies \<^verbatim>\<open>error.html\<close> when its
  source exists; a source that does not exist is skipped and is no failure. The
  directories are provisioned in order, and the first step that throws ends the whole
  provisioning: the directories behind it are not touched, and the exception is logged as
  one warning. Without an exception the success line is logged.
\<close>

theorem copyDevFiles_contract:
  assumes "config st = Some c"
    and "forwarder = path_resolve api [root c, ''node_modules/@beekeeperstudio/plugin/dist/eventForwarder.js'']"
    and "page = path_resolve api [module_dirname api, ''../error.html'']"
  shows "fst (copyDevFiles api st w) = None
    \<and> (\<exists>dirs. collect_output_dirs api (config st) (entrypoints st) [] = Inr dirs \<and> distinct dirs
          \<and> set dirs = (\<lambda>e. path_resolve api [root c, path_dirname api (entry_output e)]) ` set (entrypoints st)
          \<and> copyDevFiles api st w =
              (case provision_each api (config st) dirs w of
                 (None, w1) \<Rightarrow> (None, console_log ''[bks] Copied dev files to output directories'' w1)
               | (Some err, w1) \<Rightarrow> (None, console_warn_error ''[bks] Could not copy dev files:'' err w1)))
    \<and> provision_each api (config st) [] w = (None, w)
    \<and> (provision_dir api (config st) d w = (None, w1) \<longrightarrow>
          provision_each api (config st) (d # ds) w = provision_each api (config st) ds w1)
    \<and> (provision_dir api (config st) d w = (Some err, w1) \<longrightarrow>
          provision_each api (config st) (d # ds) w = (Some err, w1))
    \<and> provision_dir api (config st) d w =
        (case (if existsSync api (fsys w) d then (None, w) else fs_call (\<lambda>fs. mkdirSync api fs d) w) of
           (Some err, w1) \<Rightarrow> (Some err, w1)
         | (None, w1) \<Rightarrow>
             (case (if existsSync api (fsys w1) forwarder
                    then fs_call (\<lambda>fs. copyFileSync api fs forwarder (path_resolve api [d, ''eventForwarder.js''])) w1
                    else (None, w1)) of
                (Some err, w2) \<Rightarrow> (Some err, w2)
              | (None, w2) \<Rightarrow>
                  (if existsSync api (fsys w2) page
                   then fs_call (\<lambda>fs. copyFileSync api fs page (path_resolve api [d, ''error.html''])) w2
                   else (None, w2))))"
proof -
  from collect_output_dirs_Inr [of api c "entrypoints st" "[]"]
  obtain dirs where c: "collect_output_dirs api (Some c) (entrypoints st) [] = Inr dirs" and d: "distinct dirs"
    and s: "set dirs = (\<lambda>e. path_resolve api [root c, path_dirname api (entry_output e)]) ` set (entrypoints st)"
    by auto
  have "copyDevFiles api st w =
      (case provision_each api (config st) dirs w of
         (None, w1) \<Rightarrow> (None, console_log ''[bks] Copied dev files to output directories'' w1)
       | (Some err, w1) \<Rightarrow> (None, console_warn_error ''[bks] Could not copy dev files:'' err w1))"
    using c assms(1) by (simp add: copyDevFiles_def copyDevFiles_try_def split: prod.splits option.splits)
  with c d s assms(1) have 2: "\<exists>dirs. collect_output_dirs api (config st) (entrypoints st) [] = Inr dirs \<and> distinct dirs
          \<and> set dirs = (\<lambda>e. path_resolve api [root c, path_dirname api (entry_output e)]) ` set (entrypoints st)
          \<and> copyDevFiles api st w =
              (case provision_each api (config st) dirs w of
                 (None, w1) \<Rightarrow> (None, console_log ''[bks] Copied dev files to output directories'' w1)
               | (Some err, w1) \<Rightarrow> (None, console_warn_error ''[bks] Could not copy dev files:'' err w1))"
    by auto
  have 6: "provision_dir api (config st) d w =
        (case (if existsSync api (fsys w) d then (None, w) else fs_call (\<lambda>fs. mkdirSync api fs d) w) of
           (Some err, w1) \<Rightarrow> (Some err, w1)
         | (None, w1) \<Rightarrow>
             (case (if existsSync api (fsys w1) forwarder
                    then fs_call (\<lambda>fs. copyFileSync api fs forwarder (path_resolve api [d, ''eventForwarder.js''])) w1
                    else (None, w1)) of
                (Some err, w2) \<Rightarrow> (Some err, w2)
              | (None, w2) \<Rightarrow>
                  (if existsSync api (fsys w2) page
                   then fs_call (\<lambda>fs. copyFileSync api fs page (path_resolve api [d, ''error.html''])) w2
                   else (None, w2))))"
    using assms
    by (simp add: provision_dir_def copy_if_exists_def config_root_def Let_def split: prod.splits option.splits)
  have 1: "fst (copyDevFiles api st w) = None"
    by (rule copyDevFiles_never_throws)
  have 3: "provision_each api (config st) [] w = (None, w)"
    and 4: "provision_dir api (config st) d w = (None, w1) \<longrightarrow>
          provision_each api (config st) (d # ds) w = provision_each api (config st) ds w1"
    and 5: "provision_dir api (config st) d w = (Some err, w1) \<longrightarrow>
          provision_each api (config st) (d # ds) w = (Some err, w1)"
    by simp_all
  from 1 2 3 4 5 6 show ?thesis by (intro conjI)
qed

text \<open>
  The project of the example: \<^verbatim>\<open>dist\<close> is created, and the two sources do not exist, so
  that nothing is copied and nothing fails.
\<close>

theorem copyDevFiles_contract_witness:
  "copyDevFiles node_runtime demo_state demo_world
     = (None, console_log ''[bks] Copied dev files to output directories''
          (demo_world\<lparr>fsys := fsys demo_world @ [(''/p/dist'', Dir)]\<rparr>))"
proof -
  have c: "config demo_state = Some \<lparr>root = ''/p''\<rparr>"
    by (simp add: demo_state_def configResolved_def)
  from copyDevFiles_contract [OF c refl refl, of node_runtime demo_world]
  obtain dirs where d: "collect_output_dirs node_runtime (config demo_state) (entrypoints demo_state) [] = Inr dirs"
    and r: "copyDevFiles node_runtime demo_state demo_world =
              (case provision_each node_runtime (config demo_state) dirs demo_world of
                 (None, w1) \<Rightarrow> (None, console_log ''[bks] Copied dev files to output directories'' w1)
               | (Some err, w1) \<Rightarrow> (None, console_warn_error ''[bks] Could not copy dev files:'' err w1))"
    by blast
  have "collect_output_dirs node_runtime (config demo_state) (entrypoints demo_state) [] = Inr [''/p/dist'']"
    by code_simp
  with d have dirs: "dirs = [''/p/dist'']"
    by simp
  have "provision_each node_runtime (config demo_state) [''/p/dist''] demo_world
      = (None, demo_world\<lparr>fsys := fsys demo_world @ [(''/p/dist'', Dir)]\<rparr>)"
    by code_simp
  with r dirs show ?thesis by simp
qed

text \<open>
  The claim as stated lets the remaining steps continue after a failure. Two entrypoints:
  the output directory of the first lies in a read-only directory, that of the second is
  \<^verbatim>\<open>/p/dist\<close>. Creating the first directory fails, the warning is logged, and
  \<^verbatim>\<open>/p/dist\<close> is never provisioned, although provisioning it on its own succeeds.
\<close>

theorem copyDevFiles_aborts_counterexample:
  "copyDevFiles node_runtime
     (configResolved \<lparr>root = ''/p''\<rparr>
        (bks [\<lparr>entry_input = ''a.html'', entry_output = ''../r/x/a.html''\<rparr>,
              \<lparr>entry_input = ''index.html'', entry_output = ''dist/index.html''\<rparr>] None True))
     \<lparr>fsys = [(''/p'', Dir), (''/r'', ReadOnlyDir),
              (''/p/node_modules/@beekeeperstudio/plugin/dist/eventForwarder.js'', File ''forward'')],
      console = []\<rparr>
   = (None,
      \<lparr>fsys = [(''/p'', Dir), (''/r'', ReadOnlyDir),
               (''/p/node_modules/@beekeeperstudio/plugin/dist/eventForwarder.js'', File ''forward'')],
       console = [ConsoleWarnError ''[bks] Could not copy dev files:'' (SystemError ''EACCES'')]\<rparr>)
   \<and> provision_dir node_runtime (Some \<lparr>root = ''/p''\<rparr>) ''/p/dist''
     \<lparr>fsys = [(''/p'', Dir), (''/r'', ReadOnlyDir),
              (''/p/node_modules/@beekeeperstudio/plugin/dist/eventForwarder.js'', File ''forward'')],
      console = []\<rparr>
   = (None,
      \<lparr>fsys = [(''/p'', Dir), (''/r'', ReadOnlyDir),
               (''/p/node_modules/@beekeeperstudio/plugin/dist/eventForwarder.js'', File ''forward''),
               (''/p/dist'', Dir), (''/p/dist/eventForwarder.js'', File ''forward'')],
       console = []\<rparr>)"
  by code_simp

section \<open>The manifest identity\<close>

lemma or_empty_cases: "truthy (or_empty v) \<or> or_empty v = JStr []"
  by (simp add: or_empty_def split: option.splits)

lemma or_empty_truthy_iff: "truthy (or_empty v) = (or_empty v \<noteq> JStr [])"
  by (auto simp: or_empty_def split: option.splits)

lemma getManifestId_fsys: "fsys (snd (getManifestId api cfg w)) = fsys w"
  by (simp add: getManifestId_def console_warn_error_def split: sum.splits option.splits)

lemma getManifestId_try_value:
  "getManifestId_try api cfg fs = Inr (Some v) \<Longrightarrow> truthy v = (v \<noteq> JStr [])"
  by (auto simp: getManifestId_try_def Let_def or_empty_truthy_iff split: sum.splits if_splits)

lemma getManifestId_truthy_iff:
  "truthy (fst (getManifestId api cfg w)) = (fst (getManifestId api cfg w) \<noteq> JStr [])"
  by (auto simp: getManifestId_def dest: getManifestId_try_value split: sum.splits option.splits)

text \<open>
  Claim C6. \<^verbatim>\<open>getManifestId(config)\<close> returns the empty string when
  \<^verbatim>\<open>root/manifest.json\<close> is absent, when it cannot be read or is not JSON (the exception is
  caught and logged as one warning), and when the parsed object has no \<^verbatim>\<open>id\<close>; it
  returns the value of \<^verbatim>\<open>id\<close> when that is present and truthy. It returns in every
  case and leaves the file system as it was.
\<close>

theorem getManifestId_contract:
  assumes "cfg = Some c" and "p = path_resolve api [root c, ''manifest.json'']"
  shows "(\<not> existsSync api (fsys w) p \<longrightarrow> getManifestId api cfg w = (JStr [], w))
    \<and> (existsSync api (fsys w) p \<and> readFileSync api (fsys w) p = Inl e \<longrightarrow>
         getManifestId api cfg w = (JStr [], console_warn_error ''[bks] Could not read manifest.json: '' e w))
    \<and> (existsSync api (fsys w) p \<and> readFileSync api (fsys w) p = Inr txt \<and> JSON_parse api txt = Inl e \<longrightarrow>
         getManifestId api cfg w = (JStr [], console_warn_error ''[bks] Could not read manifest.json: '' e w))
    \<and> (existsSync api (fsys w) p \<and> readFileSync api (fsys w) p = Inr txt
         \<and> JSON_parse api txt = Inr (JObj kvs) \<and> map_of (rev kvs) ''id'' = None \<longrightarrow>
         getManifestId api cfg w = (JStr [], w))
    \<and> (existsSync api (fsys w) p \<and> readFileSync api (fsys w) p = Inr txt
         \<and> JSON_parse api txt = Inr (JObj kvs) \<and> map_of (rev kvs) ''id'' = Some v \<and> truthy v \<longrightarrow>
         getManifestId api cfg w = (v, w))
    \<and> fsys (snd (getManifestId api cfg w)) = fsys w"
proof -
  have "fsys (snd (getManifestId api cfg w)) = fsys w"
    by (rule getManifestId_fsys)
  moreover have "(\<not> existsSync api (fsys w) p \<longrightarrow> getManifestId api cfg w = (JStr [], w))
    \<and> (existsSync api (fsys w) p \<and> readFileSync api (fsys w) p = Inl e \<longrightarrow>
         getManifestId api cfg w = (JStr [], console_warn_error ''[bks] Could not read manifest.json: '' e w))
    \<and> (existsSync api (fsys w) p \<and> readFileSync api (fsys w) p = Inr txt \<and> JSON_parse api txt = Inl e \<longrightarrow>
         getManifestId api cfg w = (JStr [], console_warn_error ''[bks] Could not read manifest.json: '' e w))
    \<and> (existsSync api (fsys w) p \<and> readFileSync api (fsys w) p = Inr txt
         \<and> JSON_parse api txt = Inr (JObj kvs) \<and> map_of (rev kvs) ''id'' = None \<longrightarrow>
         getManifestId api cfg w = (JStr [], w))
    \<and> (existsSync api (fsys w) p \<and> readFileSync api (fsys w) p = Inr txt
         \<and> JSON_parse api txt = Inr (JObj kvs) \<and> map_of (rev kvs) ''id'' = Some v \<and> truthy v \<longrightarrow>
         getManifestId api cfg w = (v, w))"
    using assms
    by (simp add: getManifestId_def getManifestId_try_def config_root_def manifest_id_def or_empty_def)
  ultimately show ?thesis by blast
qed

theorem getManifestId_contract_witness:
  \<open>getManifestId node_runtime demo_config empty_world = (JStr [], empty_world)
   \<and> getManifestId node_runtime demo_config (manifest_world Dir)
       = (JStr [], console_warn_error ''[bks] Could not read manifest.json: '' (SystemError ''EISDIR'') (manifest_world Dir))
   \<and> getManifestId node_runtime demo_config (manifest_world (File ''{id: abc123''))
       = (JStr [], console_warn_error ''[bks] Could not read manifest.json: '' (SyntaxError ''Unexpected token'')
            (manifest_world (File ''{id: abc123'')))
   \<and> getManifestId node_runtime demo_config (manifest_world (File ''{"name": "demo"}''))
       = (JStr [], manifest_world (File ''{"name": "demo"}''))
   \<and> getManifestId node_runtime demo_config (manifest_world (File ''{"id": "abc123"}''))
       = (JStr ''abc123'', manifest_world (File ''{"id": "abc123"}''))\<close>
proof -
  have c: "demo_config = Some \<lparr>root = ''/p''\<rparr>"
    by (simp add: demo_config_def)
  have p: "''/p/manifest.json'' = path_resolve node_runtime [root \<lparr>root = ''/p''\<rparr>, ''manifest.json'']"
    by code_simp
  note t = getManifestId_contract [OF c p]
  have 1: "\<not> existsSync node_runtime (fsys empty_world) ''/p/manifest.json''"
    by code_simp
  have 2: "existsSync node_runtime (fsys (manifest_world Dir)) ''/p/manifest.json''
      \<and> readFileSync node_runtime (fsys (manifest_world Dir)) ''/p/manifest.json'' = Inl (SystemError ''EISDIR'')"
    by code_simp
  have 3: "existsSync node_runtime (fsys (manifest_world (File ''{id: abc123''))) ''/p/manifest.json''
      \<and> readFileSync node_runtime (fsys (manifest_world (File ''{id: abc123''))) ''/p/manifest.json'' = Inr ''{id: abc123''
      \<and> JSON_parse node_runtime ''{id: abc123'' = Inl (SyntaxError ''Unexpected token'')"
    by code_simp
  have 4: \<open>existsSync node_runtime (fsys (manifest_world (File ''{"name": "demo"}''))) ''/p/manifest.json''
      \<and> readFileSync node_runtime (fsys (manifest_world (File ''{"name": "demo"}''))) ''/p/manifest.json'' = Inr ''{"name": "demo"}''
      \<and> JSON_parse node_runtime ''{"name": "demo"}'' = Inr (JObj [(''name'', JStr ''demo'')])
      \<and> map_of (rev [(''name'', JStr ''demo'')]) ''id'' = None\<close>
    by code_simp
  have 5: \<open>existsSync node_runtime (fsys (manifest_world (File ''{"id": "abc123"}''))) ''/p/manifest.json''
      \<and> readFileSync node_runtime (fsys (manifest_world (File ''{"id": "abc123"}''))) ''/p/manifest.json'' = Inr ''{"id": "abc123"}''
      \<and> JSON_parse node_runtime ''{"id": "abc123"}'' = Inr (JObj [(''id'', JStr ''abc123'')])
      \<and> map_of (rev [(''id'', JStr ''abc123'')]) ''id'' = Some (JStr ''abc123'') \<and> truthy (JStr ''abc123'')\<close>
    by code_simp
  from t [of empty_world] 1
  have a: "getManifestId node_runtime demo_config empty_world = (JStr [], empty_world)"
    by blast
  from t [of "manifest_world Dir" "SystemError ''EISDIR''"] 2
  have b: "getManifestId node_runtime demo_config (manifest_world Dir)
       = (JStr [], console_warn_error ''[bks] Could not read manifest.json: '' (SystemError ''EISDIR'') (manifest_world Dir))"
    by blast
  from t [of "manifest_world (File ''{id: abc123'')" "SyntaxError ''Unexpected token''" "''{id: abc123''"] 3
  have d: "getManifestId node_runtime demo_config (manifest_world (File ''{id: abc123''))
       = (JStr [], console_warn_error ''[bks] Could not read manifest.json: '' (SyntaxError ''Unexpected token'')
            (manifest_world (File ''{id: abc123'')))"
    by blast
  from t [of \<open>manifest_world (File ''{"name": "demo"}'')\<close> _ \<open>''{"name": "demo"}''\<close> "[(''name'', JStr ''demo'')]"] 4
  have e: \<open>getManifestId node_runtime demo_config (manifest_world (File ''{"name": "demo"}''))
       = (JStr [], manifest_world (File ''{"name": "demo"}''))\<close>
    by blast
  from t [of \<open>manifest_world (File ''{"id": "abc123"}'')\<close> _ \<open>''{"id": "abc123"}''\<close> "[(''id'', JStr ''abc123'')]" "JStr ''abc123''"] 5
  have f: \<open>getManifestId node_runtime demo_config (manifest_world (File ''{"id": "abc123"}''))
       = (JStr ''abc123'', manifest_world (File ''{"id": "abc123"}''))\<close>
    by blast
  from a b d e f show ?thesis by blast
qed

section \<open>The middlewares\<close>

text \<open>
  Claim C2. The origin guard answers 403 with no header and an empty body exactly when
  the request has an \<^verbatim>\<open>Origin\<close> header that starts with \<^verbatim>\<open>plugin://\<close>, the manifest
  identity is not the empty string, the conversion of the identity to a string gives a
  text, and the origin differs from \<^verbatim>\<open>plugin://\<close> followed by that text. It throws
  exactly when the header starts with \<^verbatim>\<open>plugin://\<close>, the identity is not the empty
  string and its conversion to a string throws. It calls \<^verbatim>\<open>next()\<close> in every other
  case. It never changes the file system.
\<close>

theorem origin_guard_rejects_iff:
  "(fst (origin_guard api cfg req w) = Ended \<lparr>status = 403, headers = [], body = []\<rparr>)
     = (\<exists>orig s. origin req = Some orig \<and> prefix ''plugin://'' orig
          \<and> fst (getManifestId api cfg w) \<noteq> JStr []
          \<and> to_string (fst (getManifestId api cfg w)) = Inr s
          \<and> orig \<noteq> ''plugin://'' @ s)
   \<and> (fst (origin_guard api cfg req w) = Threw e)
     = (\<exists>orig. origin req = Some orig \<and> prefix ''plugin://'' orig
          \<and> fst (getManifestId api cfg w) \<noteq> JStr []
          \<and> to_string (fst (getManifestId api cfg w)) = Inl e)
   \<and> (fst (origin_guard api cfg req w) = Next)
     = (\<not> (\<exists>orig s. origin req = Some orig \<and> prefix ''plugin://'' orig
          \<and> fst (getManifestId api cfg w) \<noteq> JStr []
          \<and> to_string (fst (getManifestId api cfg w)) = Inr s
          \<and> orig \<noteq> ''plugin://'' @ s)
        \<and> \<not> (\<exists>orig e'. origin req = Some orig \<and> prefix ''plugin://'' orig
          \<and> fst (getManifestId api cfg w) \<noteq> JStr []
          \<and> to_string (fst (getManifestId api cfg w)) = Inl e'))
   \<and> fsys (snd (origin_guard api cfg req w)) = fsys w"
proof -
  obtain v w1 where g: "getManifestId api cfg w = (v, w1)"
    by (cases "getManifestId api cfg w")
  have t: "truthy v = (v \<noteq> JStr [])"
    using getManifestId_truthy_iff [of api cfg w] g by simp
  have f: "fsys w1 = fsys w"
    using getManifestId_fsys [of api cfg w] g by simp
  show ?thesis
  proof (cases "origin req")
    case None
    then show ?thesis by (simp add: origin_guard_def)
  next
    case (Some orig)
    show ?thesis
    proof (cases "to_string v")
      case (Inl e')
      with Some g t f show ?thesis by (auto simp: origin_guard_def)
    next
      case (Inr s)
      with Some g t f show ?thesis by (auto simp: origin_guard_def)
    qed
  qed
qed

text \<open>The four requests of the specification's example, with identity \<^verbatim>\<open>abc123\<close>.\<close>

theorem origin_guard_rejects_iff_witness:
  "fst (origin_guard node_runtime demo_config \<lparr>url = ''/'', origin = Some ''plugin://abc123''\<rparr> demo_world) = Next
   \<and> fst (origin_guard node_runtime demo_config \<lparr>url = ''/'', origin = Some ''plugin://other''\<rparr> demo_world)
       = Ended \<lparr>status = 403, headers = [], body = []\<rparr>
   \<and> fst (origin_guard node_runtime demo_config \<lparr>url = ''/'', origin = Some ''https://example.com''\<rparr> demo_world) = Next
   \<and> fst (origin_guard node_runtime demo_config \<lparr>url = ''/'', origin = None\<rparr> demo_world) = Next"
proof -
  have g: "getManifestId node_runtime demo_config demo_world = (JStr ''abc123'', demo_world)"
    by code_simp
  note t = origin_guard_rejects_iff [of node_runtime demo_config _ demo_world, unfolded g fst_conv]
  from t [of "\<lparr>url = ''/'', origin = Some ''plugin://abc123''\<rparr>"]
  have 1: "fst (origin_guard node_runtime demo_config \<lparr>url = ''/'', origin = Some ''plugin://abc123''\<rparr> demo_world) = Next"
    by simp
  from t [of "\<lparr>url = ''/'', origin = Some ''plugin://other''\<rparr>"]
  have 2: "fst (origin_guard node_runtime demo_config \<lparr>url = ''/'', origin = Some ''plugin://other''\<rparr> demo_world)
       = Ended \<lparr>status = 403, headers = [], body = []\<rparr>"
    by simp
  from t [of "\<lparr>url = ''/'', origin = Some ''https://example.com''\<rparr>"]
  have 3: "fst (origin_guard node_runtime demo_config \<lparr>url = ''/'', origin = Some ''https://example.com''\<rparr> demo_world) = Next"
    by simp
  from t [of "\<lparr>url = ''/'', origin = None\<rparr>"]
  have 4: "fst (origin_guard node_runtime demo_config \<lparr>url = ''/'', origin = None\<rparr> demo_world) = Next"
    by simp
  from 1 2 3 4 show ?thesis by blast
qed

text \<open>
  With the manifest \<^verbatim>\<open>{"id": {"toString": null}}\<close> the identity is an object, which is
  not the empty string, and the header \<^verbatim>\<open>Origin: plugin://x\<close> differs from every text
  \<^verbatim>\<open>plugin://<identity>\<close>; the guard neither answers 403 nor calls \<^verbatim>\<open>next()\<close>: the
  template literal throws a TypeError.
\<close>

theorem origin_guard_throws_counterexample:
  \<open>fst (getManifestId node_runtime demo_config (manifest_world (File ''{"id": {"toString": null}}'')))
     = JObj [(''toString'', JNull)]
   \<and> fst (origin_guard node_runtime demo_config \<lparr>url = ''/'', origin = Some ''plugin://x''\<rparr>
         (manifest_world (File ''{"id": {"toString": null}}'')))
     = Threw (TypeError ''Cannot convert object to primitive value'')\<close>
  by code_simp

text \<open>
  Claim C7. A request whose \<^verbatim>\<open>req.url\<close> is exactly \<^verbatim>\<open>/__bks_vite_plugin__info\<close> is
  answered by the identity endpoint with status 200, the JSON content type, the header
  \<^verbatim>\<open>Access-Control-Allow-Origin: *\<close> and the body \<^verbatim>\<open>JSON.stringify({manifestId})\<close>; a
  request with any other url is passed on with \<^verbatim>\<open>next()\<close>. The url is the whole
  request target, the path together with the query string.
\<close>

theorem info_endpoint_contract:
  "(url req = ''/__bks_vite_plugin__info'' \<longrightarrow>
      info_endpoint api cfg req w =
        (Ended \<lparr>status = 200,
                headers = [(''Content-Type'', ''application/json''), (''Access-Control-Allow-Origin'', ''*'')],
                body = JSON_stringify api (JObj [(''manifestId'', fst (getManifestId api cfg w))])\<rparr>,
         snd (getManifestId api cfg w)))
   \<and> (url req \<noteq> ''/__bks_vite_plugin__info'' \<longrightarrow> info_endpoint api cfg req w = (Next, w))"
  by (simp add: info_endpoint_def split: prod.splits)

theorem info_endpoint_contract_witness:
  \<open>info_endpoint node_runtime demo_config \<lparr>url = ''/__bks_vite_plugin__info'', origin = None\<rparr> demo_world
     = (Ended \<lparr>status = 200,
               headers = [(''Content-Type'', ''application/json''), (''Access-Control-Allow-Origin'', ''*'')],
               body = ''{"manifestId":"abc123"}''\<rparr>, demo_world)
   \<and> info_endpoint node_runtime demo_config \<lparr>url = ''/index.html'', origin = None\<rparr> demo_world = (Next, demo_world)\<close>
proof -
  have u1: "url \<lparr>url = ''/__bks_vite_plugin__info'', origin = None\<rparr> = ''/__bks_vite_plugin__info''"
    by simp
  have u2: "url \<lparr>url = ''/index.html'', origin = None\<rparr> \<noteq> ''/__bks_vite_plugin__info''"
    by simp
  have g: "getManifestId node_runtime demo_config demo_world = (JStr ''abc123'', demo_world)"
    by code_simp
  have s: \<open>JSON_stringify node_runtime (JObj [(''manifestId'', JStr ''abc123'')]) = ''{"manifestId":"abc123"}''\<close>
    by code_simp
  show ?thesis
    using info_endpoint_contract [of "\<lparr>url = ''/__bks_vite_plugin__info'', origin = None\<rparr>" node_runtime demo_config demo_world]
      info_endpoint_contract [of "\<lparr>url = ''/index.html'', origin = None\<rparr>" node_runtime demo_config demo_world]
      u1 u2 g s
    by simp
qed


text \<open>
  The request target \<^verbatim>\<open>/__bks_vite_plugin__info?x=1\<close> has the path
  \<^verbatim>\<open>/__bks_vite_plugin__info\<close>, and the identity endpoint passes it on.
\<close>

theorem info_endpoint_query_counterexample:
  "url_path (url \<lparr>url = ''/__bks_vite_plugin__info?x=1'', origin = None\<rparr>) = ''/__bks_vite_plugin__info''
   \<and> info_endpoint node_runtime demo_config \<lparr>url = ''/__bks_vite_plugin__info?x=1'', origin = None\<rparr> demo_world
     = (Next, demo_world)"
  by code_simp

lemma watch_each_keeps:
  "watch_each api p es st = (r, st') \<Longrightarrow>
     middlewares st' = middlewares st \<and> config st' = config st \<and> portFromServer st' = portFromServer st
     \<and> listening_once st' = listening_once st \<and> server_port st' = server_port st
     \<and> entrypoints st' = entrypoints st"
proof (induction es arbitrary: st)
  case Nil
  then show ?case by simp
next
  case (Cons e es)
  show ?case
  proof (cases "config_root (config st)")
    case (Inl err)
    with Cons.prems show ?thesis by simp
  next
    case (Inr rt)
    with Cons.prems Cons.IH [of "st\<lparr>watched := watched st @ [path_resolve api [rt, entry_input e]],
        change_listeners := change_listeners st @ [\<lparr>absPath = path_resolve api [rt, entry_input e], entry = e, devPort = p\<rparr>]\<rparr>"]
    show ?thesis by (simp add: Let_def)
  qed
qed

lemma copyDevFiles_returns: "fst (copyDevFiles api st w) = None"
  by (simp add: copyDevFiles_def split: prod.splits option.splits)

lemma configureServer_middlewares:
  assumes "configureServer api st0 w0 = (r, st, w1)"
  shows "middlewares st = middlewares st0 @ [InfoEndpoint, OriginGuard] \<and> config st = config st0"
proof -
  obtain w' where c: "copyDevFiles api st0 w0 = (None, w')"
    using copyDevFiles_returns [of api st0 w0] by (cases "copyDevFiles api st0 w0") auto
  define st2 where "st2 = (if httpServer st0 then st0\<lparr>middlewares := middlewares st0 @ [InfoEndpoint, OriginGuard], listening_once := True\<rparr>
     else st0\<lparr>middlewares := middlewares st0 @ [InfoEndpoint, OriginGuard]\<rparr>)"
  obtain r3 st3 where wf: "watchFiles api st2 = (r3, st3)"
    by (cases "watchFiles api st2")
  from assms c wf have "st = st3"
    by (auto simp: configureServer_def Let_def st2_def split: if_splits)
  moreover from wf have "middlewares st3 = middlewares st2 \<and> config st3 = config st2"
    by (auto simp: watchFiles_def Let_def dest: watch_each_keeps)
  ultimately show ?thesis by (simp add: st2_def)
qed

text \<open>
  Claim C10. \<^verbatim>\<open>configureServer\<close> registers the identity endpoint before the origin
  guard, so a request whose url is exactly \<^verbatim>\<open>/__bks_vite_plugin__info\<close> gets the 200 answer
  whatever its \<^verbatim>\<open>Origin\<close> header is: the guard never sees it.
\<close>

theorem info_endpoint_before_origin_guard:
  assumes "configureServer api st0 w0 = (r, st, w1)"
    and "middlewares st0 = []"
    and "url req = ''/__bks_vite_plugin__info''"
  shows "middlewares st = [InfoEndpoint, OriginGuard]
    \<and> handle_request api st req w =
        (Ended \<lparr>status = 200,
                headers = [(''Content-Type'', ''application/json''), (''Access-Control-Allow-Origin'', ''*'')],
                body = JSON_stringify api (JObj [(''manifestId'', fst (getManifestId api (config st) w))])\<rparr>,
         snd (getManifestId api (config st) w))
    \<and> handle_request api st (req\<lparr>origin := o'\<rparr>) w = handle_request api st req w"
proof -
  from configureServer_middlewares [OF assms(1)] assms(2)
  have m: "middlewares st = [InfoEndpoint, OriginGuard]" by simp
  have "handle_request api st q w =
        (Ended \<lparr>status = 200,
                headers = [(''Content-Type'', ''application/json''), (''Access-Control-Allow-Origin'', ''*'')],
                body = JSON_stringify api (JObj [(''manifestId'', fst (getManifestId api (config st) w))])\<rparr>,
         snd (getManifestId api (config st) w))"
    if "url q = ''/__bks_vite_plugin__info''" for q
    using that m
    by (simp add: handle_request_def run_middleware_def info_endpoint_def split: prod.splits)
  from this [of req] this [of "req\<lparr>origin := o'\<rparr>"] assms(3) m show ?thesis by simp
qed

text \<open>
  With identity \<^verbatim>\<open>abc123\<close> and \<^verbatim>\<open>Origin: plugin://other\<close> the guard alone answers 403,
  the server answers 200.
\<close>

theorem info_endpoint_before_origin_guard_witness:
  \<open>fst (handle_request node_runtime (fst (snd (configureServer node_runtime demo_state demo_world)))
         \<lparr>url = ''/__bks_vite_plugin__info'', origin = Some ''plugin://other''\<rparr> demo_world)
     = Ended \<lparr>status = 200,
              headers = [(''Content-Type'', ''application/json''), (''Access-Control-Allow-Origin'', ''*'')],
              body = ''{"manifestId":"abc123"}''\<rparr>
   \<and> fst (origin_guard node_runtime demo_config
         \<lparr>url = ''/__bks_vite_plugin__info'', origin = Some ''plugin://other''\<rparr> demo_world)
     = Ended \<lparr>status = 403, headers = [], body = []\<rparr>\<close>
proof -
  let ?req = "\<lparr>url = ''/__bks_vite_plugin__info'', origin = Some ''plugin://other''\<rparr>"
  let ?run = "configureServer node_runtime demo_state demo_world"
  have h1: "?run = (fst ?run, fst (snd ?run), snd (snd ?run))"
    by simp
  have h2: "middlewares demo_state = []"
    by code_simp
  have h3: "url ?req = ''/__bks_vite_plugin__info''"
    by simp
  have c: "config (fst (snd ?run)) = demo_config"
    using configureServer_middlewares [OF h1] by (simp add: demo_state_def demo_config_def configResolved_def)
  have g: "getManifestId node_runtime demo_config demo_world = (JStr ''abc123'', demo_world)"
    by code_simp
  have s: \<open>JSON_stringify node_runtime (JObj [(''manifestId'', JStr ''abc123'')]) = ''{"manifestId":"abc123"}''\<close>
    by code_simp
  have o: "fst (origin_guard node_runtime demo_config ?req demo_world) = Ended \<lparr>status = 403, headers = [], body = []\<rparr>"
    by code_simp
  from info_endpoint_before_origin_guard [OF h1 h2 h3, of demo_world] c g s o
  show ?thesis by simp
qed

end
